theory Spec2Isabelle
  imports Complex_Main
begin

section \<open>The dice roller: data model\<close>

text \<open>
  A shallow embedding of \<^verbatim>\<open>src/dnd-roller/main.js\<close>. JavaScript numbers are
  modelled as \<^typ>\<open>real\<close>: additions and comparisons are exact, NaN and the
  infinities do not occur. JavaScript objects that are shared by reference (the visual
  nodes of three.js, the rigid bodies of cannon-es) live in two stores indexed by a
  reference; the arrays of the program hold references.
\<close>

type_synonym ref = nat

record vec3 =
  vx :: real
  vy :: real
  vz :: real

record quat =
  qx :: real
  qy :: real
  qz :: real
  qw :: real

text \<open>A visual node (\<^verbatim>\<open>THREE.Object3D\<close>): its transform, and whether it
  carries a \<^verbatim>\<open>geometry\<close> property.\<close>

record object3d =
  position :: vec3
  quaternion :: quat
  geometry :: bool

datatype shape = Box vec3 | Plane | Trimesh "real list" "nat list"

text \<open>A rigid body (\<^verbatim>\<open>CANNON.Body\<close>) with the fields the program sets.\<close>

record body =
  mass :: real
  shapes :: "shape list"
  body_position :: vec3
  body_quaternion :: quat
  velocity :: vec3
  angularVelocity :: vec3
  linearDamping :: real
  angularDamping :: real
  allowSleep :: bool
  sleepSpeedLimit :: real
  sleepTimeLimit :: real

text \<open>An entry of \<^verbatim>\<open>diceObjects\<close>: \<^verbatim>\<open>{ mesh, body, born, halfHeight }\<close>.\<close>

record die =
  mesh :: ref
  body :: ref
  born :: real
  halfHeight :: real

text \<open>The die template: the loaded scene graph that every die clones, and
  \<^verbatim>\<open>userData.halfHeight\<close> (absent until the loader's callback stores it).\<close>

record template =
  proto :: object3d
  userData_halfHeight :: "real option"

datatype level = Log | Warn | Error

text \<open>
  The module's global state. \<open>world_bodies\<close> is \<^verbatim>\<open>world.bodies\<close>,
  \<open>scene_children\<close> is \<^verbatim>\<open>scene.children\<close>, \<open>timeouts\<close> holds the
  pending \<^verbatim>\<open>setTimeout\<close> callbacks of \<^verbatim>\<open>spawnDie\<close> as pairs of
  due time and captured body, \<open>now\<close> is \<^verbatim>\<open>performance.now()\<close> in
  milliseconds, \<open>console\<close> the messages written so far.
\<close>

record state =
  diceTemplate :: "template option"
  stageTopY :: real
  diceObjects :: "die list"
  world_bodies :: "ref list"
  scene_children :: "ref list"
  bodies :: "ref \<Rightarrow> body"
  objects :: "ref \<Rightarrow> object3d"
  next_ref :: ref
  timeouts :: "(real \<times> ref) list"
  now :: real
  console :: "(level \<times> string) list"

subsection \<open>The libraries\<close>

text \<open>
  The physics engine and the scene-graph library are not part of the repository. What
  the program needs from them is a parameter of the model:
  \<^item> \<open>boxSize\<close>: \<^verbatim>\<open>new THREE.Box3().setFromObject(o).getSize(v)\<close>, the extent
    of the world-axis-aligned bounding box of a node;
  \<^item> \<open>worldStep\<close>: \<^verbatim>\<open>world.step(fixed, elapsed, maxSubSteps)\<close>, which
    rewrites the bodies of the world and either returns or throws;
  \<^item> \<open>applyMatrix4\<close>: \<^verbatim>\<open>v.applyMatrix4(m)\<close>, a vertex moved by a
    world matrix;
  \<^item> \<open>trimeshBuilds\<close>: whether \<^verbatim>\<open>new CANNON.Trimesh(vertices, indices)\<close>
    returns (\<open>True\<close>) or throws.
  Nothing is assumed about any of them.
\<close>

datatype outcome = Returned "ref \<Rightarrow> body" | Threw "ref \<Rightarrow> body"

record library =
  boxSize :: "object3d \<Rightarrow> vec3"
  worldStep :: "real \<Rightarrow> real \<Rightarrow> nat \<Rightarrow> ref list \<Rightarrow> (ref \<Rightarrow> body) \<Rightarrow> outcome"
  applyMatrix4 :: "real list \<Rightarrow> vec3 \<Rightarrow> vec3"
  trimeshBuilds :: "real list \<Rightarrow> nat list \<Rightarrow> bool"

text \<open>
  \<^verbatim>\<open>world.addBody\<close> ignores a body that is already in the world and appends a
  new one; \<^verbatim>\<open>world.removeBody\<close> and \<^verbatim>\<open>Object3D.remove\<close> splice the
  object out where \<^verbatim>\<open>indexOf\<close> finds it; \<^verbatim>\<open>Object3D.add\<close> detaches
  the child from its parent and appends it.
\<close>

definition addBody :: "ref \<Rightarrow> ref list \<Rightarrow> ref list" where
  "addBody b bs = (if b \<in> set bs then bs else bs @ [b])"

definition removeBody :: "ref \<Rightarrow> ref list \<Rightarrow> ref list" where
  "removeBody b bs = remove1 b bs"

definition scene_add :: "ref \<Rightarrow> ref list \<Rightarrow> ref list" where
  "scene_add m cs = remove1 m cs @ [m]"

definition scene_remove :: "ref \<Rightarrow> ref list \<Rightarrow> ref list" where
  "scene_remove m cs = remove1 m cs"

definition say :: "level \<Rightarrow> string \<Rightarrow> state \<Rightarrow> state" where
  "say l msg s = s\<lparr>console := console s @ [(l, msg)]\<rparr>"

section \<open>spawnDie\<close>

subsection \<open>The placement floor\<close>

text \<open>
  \<^verbatim>\<open>d.halfHeight || (d.mesh.geometry ? bbox(d.mesh).y / 2 : 0.5)\<close>: the cached
  half-height unless it is falsy (zero).
\<close>

definition otherHalf :: "library \<Rightarrow> state \<Rightarrow> die \<Rightarrow> real" where
  "otherHalf L s d =
     (if halfHeight d \<noteq> 0 then halfHeight d
      else if geometry (objects s (mesh d)) then vy (boxSize L (objects s (mesh d))) / 2
      else 0.5)"

definition otherTop :: "library \<Rightarrow> state \<Rightarrow> die \<Rightarrow> real" where
  "otherTop L s d = vy (position (objects s (mesh d))) + otherHalf L s d"

definition horizDist :: "state \<Rightarrow> vec3 \<Rightarrow> die \<Rightarrow> real" where
  "horizDist s p d =
     (let dx = vx (position (objects s (mesh d))) - vx p;
          dz = vz (position (objects s (mesh d))) - vz p
      in sqrt (dx * dx + dz * dz))"

text \<open>The loop over \<^verbatim>\<open>diceObjects\<close>, with \<open>h\<close> the running
  \<^verbatim>\<open>highestTop\<close>. Every entry has a visual with a position, so the guard
  around the loop body never catches anything.\<close>

fun scanDice :: "library \<Rightarrow> state \<Rightarrow> vec3 \<Rightarrow> real \<Rightarrow> die list \<Rightarrow> real \<Rightarrow> real" where
  "scanDice L s p r [] h = h"
| "scanDice L s p r (d # ds) h =
     scanDice L s p r ds
       (if horizDist s p d < r \<and> otherTop L s d > h then otherTop L s d else h)"

definition horizRadius :: "vec3 \<Rightarrow> real" where
  "horizRadius sz = max (vx sz) (vz sz) * 0.9"

definition highestTop :: "library \<Rightarrow> state \<Rightarrow> vec3 \<Rightarrow> vec3 \<Rightarrow> real" where
  "highestTop L s sz p = scanDice L s p (horizRadius sz) (diceObjects s) (stageTopY s)"

subsection \<open>Pre-roll and corrective check\<close>

text \<open>
  \<^verbatim>\<open>try { for (i = 0; i < 6; i++) world.step(1/120, 1/120, 1) } catch {}\<close>:
  a throwing step ends the loop and keeps what the engine had written.
\<close>

fun preroll :: "library \<Rightarrow> nat \<Rightarrow> ref list \<Rightarrow> (ref \<Rightarrow> body) \<Rightarrow> (ref \<Rightarrow> body)" where
  "preroll L 0 bs h = h"
| "preroll L (Suc n) bs h =
     (case worldStep L (1 / 120) (1 / 120) 1 bs h of
        Threw h' \<Rightarrow> h'
      | Returned h' \<Rightarrow> preroll L n bs h')"

definition halfExtentsOf :: "vec3 \<Rightarrow> vec3" where
  "halfExtentsOf sz = \<lparr>vx = vx sz / 2, vy = vy sz / 2, vz = vz sz / 2\<rparr>"

definition stageSafeY :: "state \<Rightarrow> vec3 \<Rightarrow> real" where
  "stageSafeY s he = stageTopY s + max (vx he) (max (vy he) (vz he)) + 0.05"

text \<open>The second check: lift body and visual together when the body is below
  \<^verbatim>\<open>stageTopY + max(halfExtents) + 0.05\<close>. Nothing in it throws.\<close>

definition liftAboveStage :: "ref \<Rightarrow> ref \<Rightarrow> vec3 \<Rightarrow> state \<Rightarrow> state" where
  "liftAboveStage m b he s =
     (if vy (body_position (bodies s b)) < stageSafeY s he
      then s\<lparr>bodies := (bodies s)(b := (bodies s b)
                 \<lparr>body_position := (body_position (bodies s b))\<lparr>vy := stageSafeY s he\<rparr>\<rparr>),
             objects := (objects s)(m := (objects s m)
                 \<lparr>position := (position (objects s m))\<lparr>vy := stageSafeY s he\<rparr>\<rparr>)\<rparr>
      else s)"

subsection \<open>The stages of a spawn\<close>

text \<open>Lines 248-253: clone the template at the requested pose and add it to the scene.\<close>

definition cloneMesh :: "template \<Rightarrow> vec3 \<Rightarrow> quat \<Rightarrow> state \<Rightarrow> state" where
  "cloneMesh t p q s =
     (say Log ''Spawning die at'' s)
       \<lparr>objects := (objects s)(next_ref s := (proto t)\<lparr>position := p, quaternion := q\<rparr>),
        scene_children := scene_add (next_ref s) (scene_children s),
        next_ref := Suc (next_ref s)\<rparr>"

text \<open>Line 284-285: the requested position after
  \<^verbatim>\<open>if (position.y < minSafeY) position.y = minSafeY\<close>.\<close>

definition minSafeY :: "real \<Rightarrow> real \<Rightarrow> real" where
  "minSafeY h hh = h + hh + 0.02"

definition clampY :: "real \<Rightarrow> vec3 \<Rightarrow> vec3" where
  "clampY safe p = (if vy p < safe then p\<lparr>vy := safe\<rparr> else p)"

text \<open>Lines 261-264 and 286-294: the body as it is handed to \<^verbatim>\<open>world.addBody\<close>.
  The three numbers \<open>rnd\<close> are the results of \<^verbatim>\<open>Math.random()\<close>.\<close>

definition newBody :: "vec3 \<Rightarrow> vec3 \<Rightarrow> quat \<Rightarrow> vec3 option \<Rightarrow> real \<times> real \<times> real \<Rightarrow> body" where
  "newBody he p q vel rnd =
     (case rnd of (r1, r2, r3) \<Rightarrow>
      \<lparr>mass = 0.3, shapes = [Box he],
       body_position = \<lparr>vx = vx p, vy = vy p, vz = vz p\<rparr>,
       body_quaternion = \<lparr>qx = qx q, qy = qy q, qz = qz q, qw = qw q\<rparr>,
       velocity = (case vel of None \<Rightarrow> \<lparr>vx = 0, vy = 0, vz = 0\<rparr>
                   | Some v \<Rightarrow> \<lparr>vx = vx v, vy = vy v, vz = vz v\<rparr>),
       angularVelocity = \<lparr>vx = (r1 - 0.5) * 10, vy = (r2 - 0.5) * 10, vz = (r3 - 0.5) * 10\<rparr>,
       linearDamping = 0.08, angularDamping = 0.07,
       allowSleep = True, sleepSpeedLimit = 0.2, sleepTimeLimit = 1\<rparr>)"

text \<open>
  Lines 255-295, after the clone \<open>m\<close> is in the scene: measure the clone, find the
  floor, clamp the requested position and add the body. The result is the state and the
  caller's position vector as the clamp left it.
\<close>

definition placeBody ::
  "library \<Rightarrow> ref \<Rightarrow> vec3 \<Rightarrow> quat \<Rightarrow> vec3 option \<Rightarrow> real \<times> real \<times> real \<Rightarrow> state \<Rightarrow> state \<times> vec3"
where
  "placeBody L m p q vel rnd s =
     (let sz = boxSize L (objects s m);
          he = halfExtentsOf sz;
          p' = clampY (minSafeY (highestTop L s sz p) (vy he)) p;
          b = next_ref s
      in (s\<lparr>bodies := (bodies s)(b := newBody he p' q vel rnd),
            world_bodies := addBody b (world_bodies s),
            next_ref := Suc b\<rparr>, p'))"

text \<open>Lines 315-325: register the instance and schedule its removal.\<close>

definition register :: "ref \<Rightarrow> ref \<Rightarrow> real \<Rightarrow> state \<Rightarrow> state" where
  "register m b hh s =
     s\<lparr>diceObjects := diceObjects s @ [\<lparr>mesh = m, body = b, born = now s, halfHeight = hh\<rparr>],
       timeouts := timeouts s @ [(now s + 90000, b)]\<rparr>"

text \<open>
  \<^verbatim>\<open>spawnDie(position, quaternion, velocity)\<close>. The result is the new state,
  the returned value (\<open>None\<close> for \<^verbatim>\<open>null\<close>, else the references of mesh and
  body) and the caller's \<^verbatim>\<open>position\<close> vector after the call.
\<close>

definition spawnDie ::
  "library \<Rightarrow> vec3 \<Rightarrow> quat \<Rightarrow> vec3 option \<Rightarrow> real \<times> real \<times> real \<Rightarrow> state
     \<Rightarrow> state \<times> (ref \<times> ref) option \<times> vec3"
where
  "spawnDie L p q vel rnd s =
     (case diceTemplate s of
        None \<Rightarrow> (say Warn ''dice template not loaded yet'' s, None, p)
      | Some t \<Rightarrow>
          (let m = next_ref s;
               s1 = cloneMesh t p q s;
               he = halfExtentsOf (boxSize L (objects s1 m));
               b = next_ref s1;
               (s2, p') = placeBody L m p q vel rnd s1;
               s3 = s2\<lparr>bodies := preroll L 6 (world_bodies s2) (bodies s2)\<rparr>;
               s4 = liftAboveStage m b he s3
           in (register m b (vy he) s4, Some (m, b), p')))"

text \<open>
  Lines 297-325 on their own: what \<^verbatim>\<open>spawnDie\<close> does to the state that
  \<^verbatim>\<open>world.addBody\<close> leaves (the sub-steps, the second check, the registration).
\<close>

definition finish :: "library \<Rightarrow> ref \<Rightarrow> ref \<Rightarrow> vec3 \<Rightarrow> state \<Rightarrow> state" where
  "finish L m b he s2 =
     register m b (vy he)
       (liftAboveStage m b he (s2\<lparr>bodies := preroll L 6 (world_bodies s2) (bodies s2)\<rparr>))"


section \<open>clearAllDice\<close>

text \<open>\<^verbatim>\<open>while (diceObjects.length) { d = diceObjects.pop(); ... }\<close>\<close>

function clearAllDice :: "state \<Rightarrow> state" where
  "clearAllDice s =
     (if diceObjects s = [] then s
      else clearAllDice
             (s\<lparr>diceObjects := butlast (diceObjects s),
                world_bodies := removeBody (body (last (diceObjects s))) (world_bodies s),
                scene_children := scene_remove (mesh (last (diceObjects s))) (scene_children s)\<rparr>))"
  by pat_completeness auto
termination
  by (relation "measure (\<lambda>s. length (diceObjects s))") auto

declare clearAllDice.simps [simp del]

section \<open>The roll button\<close>

text \<open>
  \<^verbatim>\<open>screenToWorldAtY\<close>. The ray through the screen point comes from
  \<^verbatim>\<open>unproject\<close>; the model takes the camera position and the normalised
  direction \<open>dir\<close> and follows the source from there.
\<close>

definition along :: "vec3 \<Rightarrow> vec3 \<Rightarrow> real \<Rightarrow> vec3" where
  "along c d t = \<lparr>vx = vx c + vx d * t, vy = vy c + vy d * t, vz = vz c + vz d * t\<rparr>"

definition screenToWorldAtY :: "vec3 \<Rightarrow> vec3 \<Rightarrow> real \<Rightarrow> vec3" where
  "screenToWorldAtY cam dir planeY =
     (if \<bar>vy dir\<bar> < 1 / 10000 then along cam dir 3.0
      else let t = (planeY - vy cam) / vy dir
           in if t \<le> 0 then along cam dir 3.0 else along cam dir t)"

text \<open>Lines 377-384: the position the click handler asks for.\<close>

definition dieHalf :: "template \<Rightarrow> real" where
  "dieHalf t =
     (case userData_halfHeight t of
        None \<Rightarrow> 0.6
      | Some h \<Rightarrow> if h \<noteq> 0 then h else 0.6)"

definition dropPos :: "template \<Rightarrow> vec3 \<Rightarrow> vec3 \<Rightarrow> state \<Rightarrow> vec3" where
  "dropPos t cam dir s =
     (let planeY = stageTopY s;
          point = screenToWorldAtY cam dir planeY;
          spawnMargin = max 1.5 (dieHalf t * 2.0);
          dropY = planeY + dieHalf t + spawnMargin
      in \<lparr>vx = vx point, vy = dropY, vz = vz point\<rparr>)"

definition identityQuat :: quat where
  "identityQuat = \<lparr>qx = 0, qy = 0, qz = 0, qw = 1\<rparr>"

text \<open>
  The click handler. \<open>j1\<close> and \<open>j2\<close> are the two results of
  \<^verbatim>\<open>Math.random()\<close> for the jitter, \<open>rnd\<close> the three for the spin.
  Console messages are shortened to plain ASCII.
\<close>

definition rollClick ::
  "library \<Rightarrow> vec3 \<Rightarrow> vec3 \<Rightarrow> real \<Rightarrow> real \<Rightarrow> real \<times> real \<times> real \<Rightarrow> state \<Rightarrow> state"
where
  "rollClick L cam dir j1 j2 rnd s =
     (case diceTemplate s of
        None \<Rightarrow> say Warn ''Dice template not loaded yet'' s
      | Some t \<Rightarrow>
          (let s1 = clearAllDice (say Log ''Roll button clicked'' s);
               pos = dropPos t cam dir s1;
               vel = \<lparr>vx = (j1 - 0.5) * 0.4, vy = 0, vz = (j2 - 0.5) * 0.4\<rparr>
           in fst (spawnDie L pos identityQuat (Some vel) rnd s1)))"

text \<open>The key handler: \<^verbatim>\<open>r\<close> or \<^verbatim>\<open>R\<close> empties the collection with the
  same loop.\<close>

definition keydown :: "char \<Rightarrow> state \<Rightarrow> state" where
  "keydown k s = (if k = CHR ''r'' \<or> k = CHR ''R'' then clearAllDice s else s)"

section \<open>The timed removal\<close>

text \<open>\<^verbatim>\<open>diceObjects.findIndex(d => d.body === body)\<close>, \<open>None\<close> for -1.\<close>

fun findIndex :: "ref \<Rightarrow> die list \<Rightarrow> nat option" where
  "findIndex b [] = None"
| "findIndex b (d # ds) =
     (if body d = b then Some 0 else map_option Suc (findIndex b ds))"

text \<open>\<^verbatim>\<open>diceObjects.splice(idx, 1)\<close>\<close>

definition splice1 :: "nat \<Rightarrow> 'a list \<Rightarrow> 'a list" where
  "splice1 i xs = take i xs @ drop (Suc i) xs"

text \<open>The callback that \<^verbatim>\<open>spawnDie\<close> hands to \<^verbatim>\<open>setTimeout\<close>, closed
  over \<^verbatim>\<open>body\<close>.\<close>

definition timeoutCallback :: "ref \<Rightarrow> state \<Rightarrow> state" where
  "timeoutCallback b s =
     (case findIndex b (diceObjects s) of
        None \<Rightarrow> s
      | Some idx \<Rightarrow>
          s\<lparr>world_bodies := removeBody b (world_bodies s),
            scene_children := scene_remove (mesh (diceObjects s ! idx)) (scene_children s),
            diceObjects := splice1 idx (diceObjects s)\<rparr>)"

section \<open>The frame loop\<close>

text \<open>\<^verbatim>\<open>syncAll\<close>: copy each body's position and orientation onto its visual.\<close>

fun syncDice :: "die list \<Rightarrow> (ref \<Rightarrow> body) \<Rightarrow> (ref \<Rightarrow> object3d) \<Rightarrow> (ref \<Rightarrow> object3d)" where
  "syncDice [] B V = V"
| "syncDice (d # ds) B V =
     syncDice ds B
       (V(mesh d := (V (mesh d))\<lparr>position := body_position (B (body d)),
                                 quaternion := body_quaternion (B (body d))\<rparr>))"

definition syncAll :: "state \<Rightarrow> state" where
  "syncAll s = s\<lparr>objects := syncDice (diceObjects s) (bodies s) (objects s)\<rparr>"

text \<open>
  One call of \<^verbatim>\<open>animate\<close>; \<open>delta\<close> is \<^verbatim>\<open>clock.getDelta()\<close>. The next
  frame is requested before anything else, so a throwing step ends this frame only: the
  bodies keep what the engine wrote and the copy is skipped.
\<close>

definition animate :: "library \<Rightarrow> real \<Rightarrow> state \<Rightarrow> state" where
  "animate L delta s =
     (let dt = min 0.02 delta
      in case worldStep L (1 / 60) dt 10 (world_bodies s) (bodies s) of
           Threw h \<Rightarrow> s\<lparr>bodies := h\<rparr>
         | Returned h \<Rightarrow> syncAll (s\<lparr>bodies := h\<rparr>))"

text \<open>\<open>n\<close> frames in a row, one \<open>delta\<close> each.\<close>

fun frames :: "library \<Rightarrow> real list \<Rightarrow> state \<Rightarrow> state" where
  "frames L [] s = s"
| "frames L (delta # ds) s = frames L ds (animate L delta s)"

section \<open>Loading the assets\<close>

text \<open>
  What the loader hands to the callback of \<^verbatim>\<open>loadStage\<close>: the root of the
  scene graph, the nodes in the order \<^verbatim>\<open>traverse\<close> visits them, the upper Y
  bound of the root's bounding box (\<open>None\<close> when measuring throws) and whether the
  shadow-camera block runs through.
\<close>

record geom =
  indexed :: bool
  positions :: "real list option"

record node =
  isMesh :: bool
  node_geometry :: "geom option"
  matrixWorld :: "real list"

record stage_asset =
  root :: object3d
  nodes :: "node list"
  boxMaxY :: "real option"
  shadowFits :: bool

text \<open>\<^verbatim>\<open>for (i = 0; i < vertexCount; i += 3) indices.push(i, i + 1, i + 2)\<close> with
  \<^verbatim>\<open>vertexCount = vertices.length / 3\<close>: the test \<open>i < len / 3\<close> is
  \<open>3 * i < len\<close>.\<close>

function triIndices :: "nat \<Rightarrow> nat \<Rightarrow> nat list" where
  "triIndices i len =
     (if 3 * i < len then [i, i + 1, i + 2] @ triIndices (i + 3) len else [])"
  by pat_completeness auto
termination
  by (relation "measure (\<lambda>(i, len). len - 3 * i)") auto

declare triIndices.simps [simp del]

text \<open>The vertices moved to world space, three numbers at a time. A position array
  holds whole triples; one or two trailing numbers are left as they are.\<close>

fun toWorld :: "library \<Rightarrow> real list \<Rightarrow> real list \<Rightarrow> real list" where
  "toWorld L m (a # b # c # rest) =
     (let v = applyMatrix4 L m \<lparr>vx = a, vy = b, vz = c\<rparr>
      in vx v # vy v # vz v # toWorld L m rest)"
| "toWorld L m rest = rest"

definition staticBody :: "shape \<Rightarrow> vec3 \<Rightarrow> quat \<Rightarrow> body" where
  "staticBody sh p q =
     \<lparr>mass = 0, shapes = [sh], body_position = p, body_quaternion = q,
      velocity = \<lparr>vx = 0, vy = 0, vz = 0\<rparr>, angularVelocity = \<lparr>vx = 0, vy = 0, vz = 0\<rparr>,
      linearDamping = 0.01, angularDamping = 0.01,
      allowSleep = True, sleepSpeedLimit = 0.1, sleepTimeLimit = 1\<rparr>"

text \<open>\<^verbatim>\<open>quaternion.setFromEuler(x, y, z)\<close> of cannon-es, order XYZ.\<close>

definition setFromEuler :: "real \<Rightarrow> real \<Rightarrow> real \<Rightarrow> quat" where
  "setFromEuler x y z =
     (let c1 = cos (x / 2); c2 = cos (y / 2); c3 = cos (z / 2);
          s1 = sin (x / 2); s2 = sin (y / 2); s3 = sin (z / 2)
      in \<lparr>qx = s1 * c2 * c3 + c1 * s2 * s3,
          qy = c1 * s2 * c3 - s1 * c2 * s3,
          qz = c1 * c2 * s3 + s1 * s2 * c3,
          qw = c1 * c2 * c3 - s1 * s2 * s3\<rparr>)"

text \<open>A vector turned by a unit quaternion: \<open>v + 2 w (u \<times> v) + 2 u \<times> (u \<times> v)\<close> with
  \<open>u\<close> the vector part. The normal of a \<^verbatim>\<open>CANNON.Plane\<close> is the local Z axis.\<close>

definition cross :: "vec3 \<Rightarrow> vec3 \<Rightarrow> vec3" where
  "cross a b = \<lparr>vx = vy a * vz b - vz a * vy b,
               vy = vz a * vx b - vx a * vz b,
               vz = vx a * vy b - vy a * vx b\<rparr>"

definition rotate :: "quat \<Rightarrow> vec3 \<Rightarrow> vec3" where
  "rotate q v =
     (let u = \<lparr>vx = qx q, vy = qy q, vz = qz q\<rparr>;
          c = cross u v;
          cc = cross u c
      in \<lparr>vx = vx v + 2 * qw q * vx c + 2 * vx cc,
          vy = vy v + 2 * qw q * vy c + 2 * vy cc,
          vz = vz v + 2 * qw q * vz c + 2 * vz cc\<rparr>)"

definition planeNormal :: "body \<Rightarrow> vec3" where
  "planeNormal b = rotate (body_quaternion b) \<lparr>vx = 0, vy = 0, vz = 1\<rparr>"

text \<open>
  Lines 160-171: the fallback ground plane. The constructors of the body and of the
  plane take nothing from the asset; the guard around them has no failing branch here.
\<close>

definition addGroundPlane :: "state \<Rightarrow> state" where
  "addGroundPlane s =
     s\<lparr>bodies := (bodies s)(next_ref s :=
          staticBody Plane \<lparr>vx = 0, vy = stageTopY s, vz = 0\<rparr> (setFromEuler (- pi / 2) 0 0)),
       world_bodies := addBody (next_ref s) (world_bodies s),
       next_ref := Suc (next_ref s)\<rparr>"

text \<open>
  Lines 176-199, one pass of the callback given to \<^verbatim>\<open>root.traverse\<close>: the
  world-space vertices and the indices of a node, or \<open>None\<close> where the callback
  returns early. \<^verbatim>\<open>toNonIndexed\<close> leaves the asset's flat position array in
  \<open>positions\<close>.
\<close>

definition colliderInput :: "library \<Rightarrow> node \<Rightarrow> (real list \<times> nat list) option" where
  "colliderInput L n =
     (if \<not> isMesh n then None
      else case node_geometry n of
        None \<Rightarrow> None
      | Some g \<Rightarrow>
          (case positions g of
             None \<Rightarrow> None
           | Some arr \<Rightarrow> Some (toWorld L (matrixWorld n) arr, triIndices 0 (length arr))))"

definition trimeshWarning :: "level \<times> string" where
  "trimeshWarning = (Warn, ''Could not create Trimesh for a mesh, skipping physics for that mesh.'')"

text \<open>Lines 201-209: the guarded construction.\<close>

definition buildCollider :: "library \<Rightarrow> node \<Rightarrow> state \<Rightarrow> state" where
  "buildCollider L n s =
     (case colliderInput L n of
        None \<Rightarrow> s
      | Some (vertices, indices) \<Rightarrow>
          if trimeshBuilds L vertices indices
          then s\<lparr>bodies := (bodies s)(next_ref s :=
                     staticBody (Trimesh vertices indices)
                       \<lparr>vx = 0, vy = 0, vz = 0\<rparr> \<lparr>qx = 0, qy = 0, qz = 0, qw = 1\<rparr>),
                 world_bodies := addBody (next_ref s) (world_bodies s),
                 next_ref := Suc (next_ref s)\<rparr>
          else s\<lparr>console := console s @ [trimeshWarning]\<rparr>)"

text \<open>The static body a node contributes, if its shape can be built; and the nodes
  whose shape cannot.\<close>

definition collider :: "library \<Rightarrow> node \<Rightarrow> body option" where
  "collider L n =
     (case colliderInput L n of
        None \<Rightarrow> None
      | Some (vertices, indices) \<Rightarrow>
          if trimeshBuilds L vertices indices
          then Some (staticBody (Trimesh vertices indices)
                       \<lparr>vx = 0, vy = 0, vz = 0\<rparr> \<lparr>qx = 0, qy = 0, qz = 0, qw = 1\<rparr>)
          else None)"

definition fails :: "library \<Rightarrow> node \<Rightarrow> bool" where
  "fails L n =
     (case colliderInput L n of
        None \<Rightarrow> False
      | Some (vertices, indices) \<Rightarrow> \<not> trimeshBuilds L vertices indices)"

fun buildColliders :: "library \<Rightarrow> node list \<Rightarrow> state \<Rightarrow> state" where
  "buildColliders L [] s = s"
| "buildColliders L (n # ns) s = buildColliders L ns (buildCollider L n s)"

text \<open>
  The success callback of \<^verbatim>\<open>loadStage\<close>. \<open>target\<close> is the reference of
  \<^verbatim>\<open>dirLight.target\<close>, which the shadow-camera block adds to the scene.
\<close>

definition loadStage :: "library \<Rightarrow> ref \<Rightarrow> stage_asset \<Rightarrow> state \<Rightarrow> state" where
  "loadStage L target a s =
     (let s1 = s\<lparr>objects := (objects s)(next_ref s := root a),
                scene_children := scene_add (next_ref s) (scene_children s),
                next_ref := Suc (next_ref s)\<rparr>;
          s2 = say Log ''Stage top Y:''
                 (s1\<lparr>stageTopY := (case boxMaxY a of None \<Rightarrow> 0 | Some y \<Rightarrow> y)\<rparr>);
          s3 = (if shadowFits a
                then s2\<lparr>scene_children := scene_add target (scene_children s2)\<rparr>
                else say Warn ''Could not adjust shadow camera:'' s2);
          s4 = addGroundPlane s3;
          s5 = buildColliders L (nodes a) s4
      in say Log ''Stage loaded and static bodies created'' s5)"

text \<open>
  The success callback of \<^verbatim>\<open>loadDiceTemplate\<close>. \<open>measured\<close> says whether the
  bounding box could be taken; if not, the half-height falls back to the asset's own
  \<^verbatim>\<open>userData.halfHeight\<close> or 0.5.
\<close>

definition loadDiceTemplate :: "library \<Rightarrow> object3d \<Rightarrow> real option \<Rightarrow> bool \<Rightarrow> state \<Rightarrow> state" where
  "loadDiceTemplate L g assetHalf measured s =
     say Log ''Dice template loaded''
       (if measured
        then say Log ''Dice template size:''
               (s\<lparr>diceTemplate := Some \<lparr>proto = g,
                      userData_halfHeight = Some (vy (boxSize L g) / 2)\<rparr>\<rparr>)
        else s\<lparr>diceTemplate := Some \<lparr>proto = g,
                  userData_halfHeight =
                    Some (case assetHalf of None \<Rightarrow> 0.5
                          | Some h \<Rightarrow> if h \<noteq> 0 then h else 0.5)\<rparr>\<rparr>)"

section \<open>The event loop\<close>

text \<open>
  The program is single-threaded: between two events nothing happens. A pending timeout
  runs once, not before its due time, and is then gone; that is the contract of
  \<^verbatim>\<open>setTimeout\<close>. \<open>Elapse\<close> lets time pass.
\<close>

datatype event =
    StageLoaded stage_asset
  | StageFailed
  | TemplateLoaded object3d "real option" bool
  | TemplateFailed
  | Click vec3 vec3 real real "real \<times> real \<times> real"
  | Key char
  | Frame real
  | Elapse real
  | Timeout nat

definition fireTimeout :: "nat \<Rightarrow> state \<Rightarrow> state" where
  "fireTimeout i s =
     (if i < length (timeouts s) \<and> fst (timeouts s ! i) \<le> now s
      then (timeoutCallback (snd (timeouts s ! i)) s)\<lparr>timeouts := splice1 i (timeouts s)\<rparr>
      else s)"

fun handle :: "library \<Rightarrow> event \<Rightarrow> state \<Rightarrow> state" where
  "handle L (StageLoaded a) s = loadStage L 2 a s"
| "handle L StageFailed s = say Error ''Failed to load scene.glb'' s"
| "handle L (TemplateLoaded g h m) s = loadDiceTemplate L g h m s"
| "handle L TemplateFailed s = say Error ''Failed to load dice.glb'' s"
| "handle L (Click cam dir j1 j2 rnd) s = rollClick L cam dir j1 j2 rnd s"
| "handle L (Key k) s = keydown k s"
| "handle L (Frame delta) s = animate L delta s"
| "handle L (Elapse dt) s = (if 0 \<le> dt then s\<lparr>now := now s + dt\<rparr> else s)"
| "handle L (Timeout i) s = fireTimeout i s"

fun run :: "library \<Rightarrow> event list \<Rightarrow> state \<Rightarrow> state" where
  "run L [] s = s"
| "run L (e # es) s = run L es (handle L e s)"

definition blankObject :: object3d where
  "blankObject = \<lparr>position = \<lparr>vx = 0, vy = 0, vz = 0\<rparr>,
                  quaternion = \<lparr>qx = 0, qy = 0, qz = 0, qw = 1\<rparr>, geometry = False\<rparr>"

text \<open>
  The state after the module body and \<^verbatim>\<open>initThree\<close>: the scene holds the two
  lights (references 0 and 1), reference 2 is the target of the directional light, the
  world is empty.
\<close>

definition initial :: state where
  "initial =
     \<lparr>diceTemplate = None, stageTopY = 0, diceObjects = [],
      world_bodies = [], scene_children = [0, 1],
      bodies = (\<lambda>_. staticBody Plane \<lparr>vx = 0, vy = 0, vz = 0\<rparr> \<lparr>qx = 0, qy = 0, qz = 0, qw = 1\<rparr>),
      objects = (\<lambda>_. blankObject),
      next_ref = 3, timeouts = [], now = 0, console = []\<rparr>"

text \<open>The states the program can be in.\<close>

definition reachable :: "library \<Rightarrow> state \<Rightarrow> bool" where
  "reachable L s = (\<exists>es. s = run L es initial)"

text \<open>
  Well-formed states: no reference is listed twice, every listed reference has been
  allocated, every live die is in the world and in the scene and has its timeout
  pending, and a body whose timeout is pending but which is no longer live has left the
  world.
\<close>

definition wf :: "state \<Rightarrow> bool" where
  "wf s =
     (distinct (world_bodies s) \<and> distinct (scene_children s) \<and>
      distinct (map body (diceObjects s)) \<and> distinct (map mesh (diceObjects s)) \<and>
      distinct (map snd (timeouts s)) \<and>
      list_all (\<lambda>b. b < next_ref s) (world_bodies s) \<and>
      list_all (\<lambda>m. m < next_ref s) (scene_children s) \<and>
      list_all (\<lambda>x. snd x < next_ref s) (timeouts s) \<and>
      2 < next_ref s \<and>
      list_all (\<lambda>d. mesh d < next_ref s \<and> body d < next_ref s \<and>
                     body d \<in> set (world_bodies s) \<and> mesh d \<in> set (scene_children s) \<and>
                     (born d + 90000, body d) \<in> set (timeouts s)) (diceObjects s) \<and>
      list_all (\<lambda>x. snd x \<in> body ` set (diceObjects s) \<or> snd x \<notin> set (world_bodies s))
        (timeouts s))"

section \<open>A concrete engine and stage\<close>

text \<open>
  An engine for running the model: every call of \<open>freeFall\<close> makes one sub-step of
  the fixed length in which each body of positive mass gains the velocity of gravity and
  moves with it; there are no contacts and no damping. The die is a cube of edge 0.6.
\<close>

definition fall1 :: "real \<Rightarrow> body \<Rightarrow> body" where
  "fall1 dt b =
     (if mass b \<le> 0 then b
      else b\<lparr>velocity := (velocity b)\<lparr>vy := vy (velocity b) - 9.82 * dt\<rparr>,
             body_position :=
               \<lparr>vx = vx (body_position b) + vx (velocity b) * dt,
                vy = vy (body_position b) + (vy (velocity b) - 9.82 * dt) * dt,
                vz = vz (body_position b) + vz (velocity b) * dt\<rparr>\<rparr>)"

definition freeFall :: "real \<Rightarrow> real \<Rightarrow> nat \<Rightarrow> ref list \<Rightarrow> (ref \<Rightarrow> body) \<Rightarrow> outcome" where
  "freeFall fixed elapsed maxSub bs h =
     Returned (\<lambda>r. if r \<in> set bs then fall1 fixed (h r) else h r)"

definition smallDie :: library where
  "smallDie = \<lparr>boxSize = (\<lambda>_. \<lparr>vx = 0.6, vy = 0.6, vz = 0.6\<rparr>), worldStep = freeFall,
               applyMatrix4 = (\<lambda>m v. v), trimeshBuilds = (\<lambda>vs is. vs \<noteq> [])\<rparr>"

definition origin :: vec3 where
  "origin = \<lparr>vx = 0, vy = 0, vz = 0\<rparr>"

definition dieTemplate :: template where
  "dieTemplate = \<lparr>proto = blankObject, userData_halfHeight = Some 0.3\<rparr>"

text \<open>Stage loaded with top Y = 2.0, template loaded, no dice: reference 3 is the stage
  root, 4 the ground plane.\<close>

definition readyStage :: state where
  "readyStage =
     initial\<lparr>diceTemplate := Some dieTemplate, stageTopY := 2,
             world_bodies := [4], scene_children := [0, 1, 3, 2],
             bodies := (bodies initial)(4 :=
                staticBody Plane \<lparr>vx = 0, vy = 2, vz = 0\<rparr> (setFromEuler (- pi / 2) 0 0)),
             next_ref := 5\<rparr>"

text \<open>The same stage with one die at rest on it: visual 5 and body 6 at height 2.3,
  half-height 0.3, so its top surface is at 2.6.\<close>

definition restingDie :: body where
  "restingDie = newBody \<lparr>vx = 0.3, vy = 0.3, vz = 0.3\<rparr> \<lparr>vx = 0, vy = 2.3, vz = 0\<rparr>
                  identityQuat None (0.5, 0.5, 0.5)"

definition oneDie :: state where
  "oneDie =
     readyStage\<lparr>diceObjects := [\<lparr>mesh = 5, body = 6, born = 0, halfHeight = 0.3\<rparr>],
                world_bodies := [4, 6], scene_children := [0, 1, 3, 2, 5],
                bodies := (bodies readyStage)(6 := restingDie),
                objects := (objects readyStage)(5 := blankObject\<lparr>position := \<lparr>vx = 0, vy = 2.3, vz = 0\<rparr>\<rparr>),
                timeouts := [(90000, 6)],
                next_ref := 7\<rparr>"

text \<open>
  A stage asset of three nodes: a group, a mesh of one triangle, and a mesh whose
  position array is empty (its shape cannot be built by \<open>smallDie\<close>). The bounding
  box reaches up to 2.
\<close>

definition triangle :: node where
  "triangle = \<lparr>isMesh = True,
               node_geometry = Some \<lparr>indexed = False,
                                     positions = Some [0, 2, 0, 1, 2, 0, 0, 2, 1]\<rparr>,
               matrixWorld = []\<rparr>"

definition degenerate :: node where
  "degenerate = \<lparr>isMesh = True,
                 node_geometry = Some \<lparr>indexed = False, positions = Some []\<rparr>,
                 matrixWorld = []\<rparr>"

definition groupNode :: node where
  "groupNode = \<lparr>isMesh = False, node_geometry = None, matrixWorld = []\<rparr>"

definition table :: stage_asset where
  "table = \<lparr>root = blankObject, nodes = [groupNode, degenerate, triangle],
            boxMaxY = Some 2, shadowFits = True\<rparr>"

text \<open>
  The stage with two dice, both in step with their bodies: one at rest at
  (0.3, 2.3, 0.4), half a metre from the vertical axis through the origin, its top at
  2.6; one in the air at (-0.57, 3.0, 0), 0.57 from that axis, its top at 3.3. The
  exclusion radius of the cube is 0.54.
\<close>

definition pair :: state where
  "pair =
     readyStage\<lparr>diceObjects := [\<lparr>mesh = 5, body = 6, born = 0, halfHeight = 0.3\<rparr>,
                                \<lparr>mesh = 7, body = 8, born = 0, halfHeight = 0.3\<rparr>],
               world_bodies := [4, 6, 8], scene_children := [0, 1, 3, 2, 5, 7],
               bodies := (bodies readyStage)
                 (6 := newBody \<lparr>vx = 0.3, vy = 0.3, vz = 0.3\<rparr> \<lparr>vx = 0.3, vy = 2.3, vz = 0.4\<rparr>
                         identityQuat None (0.5, 0.5, 0.5),
                  8 := newBody \<lparr>vx = 0.3, vy = 0.3, vz = 0.3\<rparr> \<lparr>vx = - 0.57, vy = 3.0, vz = 0\<rparr>
                         identityQuat None (0.5, 0.5, 0.5)),
               objects := (objects readyStage)
                 (5 := blankObject\<lparr>position := \<lparr>vx = 0.3, vy = 2.3, vz = 0.4\<rparr>\<rparr>,
                  7 := blankObject\<lparr>position := \<lparr>vx = - 0.57, vy = 3.0, vz = 0\<rparr>\<rparr>),
               timeouts := [(90000, 6), (90000, 8)],
               next_ref := 9\<rparr>"

text \<open>The camera of \<^verbatim>\<open>initThree\<close> at (0, 12, 0), looking straight down.\<close>

definition camera :: vec3 where
  "camera = \<lparr>vx = 0, vy = 12, vz = 0\<rparr>"

definition down :: vec3 where
  "down = \<lparr>vx = 0, vy = - 1, vz = 0\<rparr>"


section \<open>Spawning before the template is loaded\<close>

text \<open>
  C5. A spawn request made while \<^verbatim>\<open>diceTemplate\<close> is still null returns null,
  writes one warning to the console, leaves the caller's vector as it was, and changes
  nothing else: the live-instance collection, the bodies of the world, the children of
  the scene, both stores and the pending timeouts are the same.
\<close>

theorem spawnDie_before_template:
  "spawnDie L p q vel rnd (s\<lparr>diceTemplate := None\<rparr>) =
     (s\<lparr>diceTemplate := None,
        console := console s @ [(Warn, ''dice template not loaded yet'')]\<rparr>, None, p)"
  by (simp add: spawnDie_def say_def)

section \<open>Clearing\<close>

lemma clearAllDice_empty: "diceObjects (clearAllDice s) = []"
  by (induction s rule: clearAllDice.induct) (subst clearAllDice.simps, simp)

lemma clearAllDice_fixed: "diceObjects s = [] \<Longrightarrow> clearAllDice s = s"
  by (subst clearAllDice.simps) simp

lemma clearAllDice_step:
  "diceObjects s \<noteq> [] \<Longrightarrow>
     clearAllDice s = clearAllDice
       (s\<lparr>diceObjects := butlast (diceObjects s),
          world_bodies := removeBody (body (last (diceObjects s))) (world_bodies s),
          scene_children := scene_remove (mesh (last (diceObjects s))) (scene_children s)\<rparr>)"
  by (subst clearAllDice.simps) simp

lemma clearAllDice_frame:
  "clearAllDice s =
     s\<lparr>diceObjects := [], world_bodies := world_bodies (clearAllDice s),
       scene_children := scene_children (clearAllDice s)\<rparr>"
proof (induction s rule: clearAllDice.induct)
  case (1 s)
  show ?case
  proof (cases "diceObjects s = []")
    case True
    then show ?thesis by (simp add: clearAllDice_fixed)
  next
    case False
    show ?thesis
      using "1.IH" [OF False] by (simp add: clearAllDice_step [OF False])
  qed
qed

lemma clearAllDice_world_subset: "set (world_bodies (clearAllDice s)) \<subseteq> set (world_bodies s)"
proof (induction s rule: clearAllDice.induct)
  case (1 s)
  show ?case
  proof (cases "diceObjects s = []")
    case True
    then show ?thesis by (simp add: clearAllDice_fixed)
  next
    case False
    from "1.IH" [OF False] have
      "set (world_bodies (clearAllDice s)) \<subseteq> set (removeBody (body (last (diceObjects s))) (world_bodies s))"
      by (simp add: clearAllDice_step [OF False])
    then show ?thesis
      using set_remove1_subset by (fastforce simp: removeBody_def)
  qed
qed

lemma clearAllDice_scene_subset: "set (scene_children (clearAllDice s)) \<subseteq> set (scene_children s)"
proof (induction s rule: clearAllDice.induct)
  case (1 s)
  show ?case
  proof (cases "diceObjects s = []")
    case True
    then show ?thesis by (simp add: clearAllDice_fixed)
  next
    case False
    from "1.IH" [OF False] have
      "set (scene_children (clearAllDice s)) \<subseteq> set (scene_remove (mesh (last (diceObjects s))) (scene_children s))"
      by (simp add: clearAllDice_step [OF False])
    then show ?thesis
      using set_remove1_subset by (fastforce simp: scene_remove_def)
  qed
qed

lemma clearAllDice_distinct:
  "distinct (world_bodies s) \<Longrightarrow> distinct (world_bodies (clearAllDice s))"
  "distinct (scene_children s) \<Longrightarrow> distinct (scene_children (clearAllDice s))"
proof (induction s rule: clearAllDice.induct)
  case (1 s)
  { case 1
    show ?case
    proof (cases "diceObjects s = []")
      case True
      then show ?thesis using 1 by (simp add: clearAllDice_fixed)
    next
      case False
      show ?thesis
        using "1.IH"(1) [OF False] 1 by (simp add: clearAllDice_step [OF False] removeBody_def)
    qed
  next
    case 2
    show ?case
    proof (cases "diceObjects s = []")
      case True
      then show ?thesis using 2 by (simp add: clearAllDice_fixed)
    next
      case False
      show ?thesis
        using "1.IH"(2) [OF False] 2 by (simp add: clearAllDice_step [OF False] scene_remove_def)
    qed
  }
qed

lemma last_or_butlast: "xs \<noteq> [] \<Longrightarrow> x \<in> set xs \<Longrightarrow> x = last xs \<or> x \<in> set (butlast xs)"
  by (induction xs) (auto split: if_splits)

lemma clearAllDice_absent:
  "d \<in> set (diceObjects s) \<Longrightarrow>
     (distinct (world_bodies s) \<longrightarrow> body d \<notin> set (world_bodies (clearAllDice s))) \<and>
     (distinct (scene_children s) \<longrightarrow> mesh d \<notin> set (scene_children (clearAllDice s)))"
proof (induction s rule: clearAllDice.induct)
  case (1 s)
  let ?l = "last (diceObjects s)"
  let ?s' = "s\<lparr>diceObjects := butlast (diceObjects s),
                world_bodies := removeBody (body ?l) (world_bodies s),
                scene_children := scene_remove (mesh ?l) (scene_children s)\<rparr>"
  from "1.prems" have ne: "diceObjects s \<noteq> []" by auto
  have unf: "clearAllDice s = clearAllDice ?s'" by (rule clearAllDice_step [OF ne])
  from last_or_butlast [OF ne "1.prems"] show ?case
  proof
    assume d: "d = ?l"
    have "distinct (world_bodies s) \<Longrightarrow> body d \<notin> set (world_bodies ?s')"
      using d by (simp add: removeBody_def)
    moreover have "distinct (scene_children s) \<Longrightarrow> mesh d \<notin> set (scene_children ?s')"
      using d by (simp add: scene_remove_def)
    ultimately show ?thesis
      using clearAllDice_world_subset [of ?s'] clearAllDice_scene_subset [of ?s'] unf by auto
  next
    assume "d \<in> set (butlast (diceObjects s))"
    then show ?thesis
      using "1.IH" [OF ne] unf by (simp add: removeBody_def scene_remove_def)
  qed
qed

text \<open>
  C6. After \<^verbatim>\<open>clearAllDice\<close> the live-instance collection is empty, the body
  of every die that was live is absent from the world and its visual from the scene, and
  a second call changes nothing. The world and the scene list no object twice (which
  holds in every state the program reaches).
\<close>

theorem clearAllDice_removes_everything:
  assumes "distinct (world_bodies s)" and "distinct (scene_children s)"
  shows "diceObjects (clearAllDice s) = [] \<and>
         (\<forall>d \<in> set (diceObjects s).
            body d \<notin> set (world_bodies (clearAllDice s)) \<and>
            mesh d \<notin> set (scene_children (clearAllDice s))) \<and>
         clearAllDice (clearAllDice s) = clearAllDice s"
  using assms clearAllDice_absent [of _ s]
  by (simp add: clearAllDice_empty clearAllDice_fixed)

theorem clearAllDice_removes_everything_witness:
  "distinct (world_bodies oneDie) \<and> distinct (scene_children oneDie) \<and>
   diceObjects oneDie = [\<lparr>mesh = 5, body = 6, born = 0, halfHeight = 0.3\<rparr>] \<and>
   diceObjects (clearAllDice oneDie) = [] \<and>
   6 \<notin> set (world_bodies (clearAllDice oneDie)) \<and>
   5 \<notin> set (scene_children (clearAllDice oneDie)) \<and>
   clearAllDice (clearAllDice oneDie) = clearAllDice oneDie"
proof -
  have w: "distinct (world_bodies oneDie)" and c: "distinct (scene_children oneDie)"
    by (simp_all add: oneDie_def readyStage_def initial_def)
  have d: "diceObjects oneDie = [\<lparr>mesh = 5, body = 6, born = 0, halfHeight = 0.3\<rparr>]"
    by (simp add: oneDie_def)
  from clearAllDice_removes_everything [OF w c] d w c show ?thesis
    by simp
qed

section \<open>The stages of a spawn, field by field\<close>

lemma clampY_proj [simp]:
  "vx (clampY a p) = vx p" "vz (clampY a p) = vz p" "vy (clampY a p) = max (vy p) a"
  by (auto simp: clampY_def)

lemma cloneMesh_fields [simp]:
  "objects (cloneMesh t p q s) = (objects s)(next_ref s := (proto t)\<lparr>position := p, quaternion := q\<rparr>)"
  "scene_children (cloneMesh t p q s) = scene_add (next_ref s) (scene_children s)"
  "next_ref (cloneMesh t p q s) = Suc (next_ref s)"
  "diceObjects (cloneMesh t p q s) = diceObjects s"
  "stageTopY (cloneMesh t p q s) = stageTopY s"
  "bodies (cloneMesh t p q s) = bodies s"
  "world_bodies (cloneMesh t p q s) = world_bodies s"
  "timeouts (cloneMesh t p q s) = timeouts s"
  "now (cloneMesh t p q s) = now s"
  "diceTemplate (cloneMesh t p q s) = diceTemplate s"
  "console (cloneMesh t p q s) = console s @ [(Log, ''Spawning die at'')]"
  by (simp_all add: cloneMesh_def say_def)

lemma placeBody_fields [simp]:
  "snd (placeBody L m p q vel rnd s) =
     clampY (minSafeY (highestTop L s (boxSize L (objects s m)) p) (vy (boxSize L (objects s m)) / 2)) p"
  "bodies (fst (placeBody L m p q vel rnd s)) =
     (bodies s)(next_ref s := newBody (halfExtentsOf (boxSize L (objects s m)))
                                (snd (placeBody L m p q vel rnd s)) q vel rnd)"
  "world_bodies (fst (placeBody L m p q vel rnd s)) = addBody (next_ref s) (world_bodies s)"
  "next_ref (fst (placeBody L m p q vel rnd s)) = Suc (next_ref s)"
  "objects (fst (placeBody L m p q vel rnd s)) = objects s"
  "scene_children (fst (placeBody L m p q vel rnd s)) = scene_children s"
  "diceObjects (fst (placeBody L m p q vel rnd s)) = diceObjects s"
  "stageTopY (fst (placeBody L m p q vel rnd s)) = stageTopY s"
  "timeouts (fst (placeBody L m p q vel rnd s)) = timeouts s"
  "now (fst (placeBody L m p q vel rnd s)) = now s"
  "diceTemplate (fst (placeBody L m p q vel rnd s)) = diceTemplate s"
  "console (fst (placeBody L m p q vel rnd s)) = console s"
  by (simp_all add: placeBody_def Let_def halfExtentsOf_def)

lemma newBody_position [simp]: "body_position (newBody he p q vel rnd) = p"
  by (cases rnd) (simp add: newBody_def)

lemma spawnDie_loaded:
  assumes "diceTemplate s = Some t"
  shows "spawnDie L p q vel rnd s =
     (let m = next_ref s;
          s1 = cloneMesh t p q s;
          he = halfExtentsOf (boxSize L (objects s1 m));
          s2 = fst (placeBody L m p q vel rnd s1);
          s3 = s2\<lparr>bodies := preroll L 6 (world_bodies s2) (bodies s2)\<rparr>
      in (register m (Suc m) (vy he) (liftAboveStage m (Suc m) he s3), Some (m, Suc m),
          snd (placeBody L m p q vel rnd s1)))"
  using assms by (simp add: spawnDie_def Let_def split_beta)

lemma liftAboveStage_fields [simp]:
  "diceObjects (liftAboveStage m b he s) = diceObjects s"
  "world_bodies (liftAboveStage m b he s) = world_bodies s"
  "scene_children (liftAboveStage m b he s) = scene_children s"
  "next_ref (liftAboveStage m b he s) = next_ref s"
  "timeouts (liftAboveStage m b he s) = timeouts s"
  "now (liftAboveStage m b he s) = now s"
  "stageTopY (liftAboveStage m b he s) = stageTopY s"
  "diceTemplate (liftAboveStage m b he s) = diceTemplate s"
  "console (liftAboveStage m b he s) = console s"
  by (simp_all add: liftAboveStage_def)

lemma liftAboveStage_body:
  "vy (body_position (bodies (liftAboveStage m b he s) b)) =
     max (vy (body_position (bodies s b))) (stageSafeY s he)"
  "vx (body_position (bodies (liftAboveStage m b he s) b)) = vx (body_position (bodies s b))"
  "vz (body_position (bodies (liftAboveStage m b he s) b)) = vz (body_position (bodies s b))"
  by (simp_all add: liftAboveStage_def)

lemma liftAboveStage_mesh:
  "objects (liftAboveStage m b he s) m =
     (if vy (body_position (bodies s b)) < stageSafeY s he
      then (objects s m)\<lparr>position := (position (objects s m))\<lparr>vy := stageSafeY s he\<rparr>\<rparr>
      else objects s m)"
  by (simp add: liftAboveStage_def)

lemma register_fields [simp]:
  "bodies (register m b hh s) = bodies s"
  "objects (register m b hh s) = objects s"
  "world_bodies (register m b hh s) = world_bodies s"
  "scene_children (register m b hh s) = scene_children s"
  "next_ref (register m b hh s) = next_ref s"
  "now (register m b hh s) = now s"
  "stageTopY (register m b hh s) = stageTopY s"
  "diceTemplate (register m b hh s) = diceTemplate s"
  "console (register m b hh s) = console s"
  "diceObjects (register m b hh s) =
     diceObjects s @ [\<lparr>mesh = m, body = b, born = now s, halfHeight = hh\<rparr>]"
  "timeouts (register m b hh s) = timeouts s @ [(now s + 90000, b)]"
  by (simp_all add: register_def)

section \<open>The placement floor is the highest nearby top\<close>

lemma Max_insert_insert:
  fixes a :: real
  assumes "finite S"
  shows "Max (insert a (insert b S)) = Max (insert (max a b) S)"
proof (cases "S = {}")
  case True
  then show ?thesis by (simp add: max.commute)
next
  case False
  then show ?thesis using assms by (simp add: max.assoc)
qed

lemma scanDice_Max:
  "scanDice L s p r ds h =
     Max (insert h (otherTop L s ` {d \<in> set ds. horizDist s p d < r}))"
proof (induction ds arbitrary: h)
  case Nil
  show ?case by simp
next
  case (Cons d ds)
  let ?S = "otherTop L s ` {d \<in> set ds. horizDist s p d < r}"
  have fin: "finite ?S" by simp
  show ?case
  proof (cases "horizDist s p d < r")
    case True
    then have eq: "otherTop L s ` {e \<in> set (d # ds). horizDist s p e < r} = insert (otherTop L s d) ?S"
      by auto
    have acc: "(if otherTop L s d > h then otherTop L s d else h) = max h (otherTop L s d)"
      by (simp add: max_def)
    show ?thesis
      using True Cons.IH [of "max h (otherTop L s d)"] Max_insert_insert [OF fin, of h "otherTop L s d"]
      by (simp only: scanDice.simps eq acc if_True simp_thms)
  next
    case False
    then have "otherTop L s ` {e \<in> set (d # ds). horizDist s p e < r} = ?S"
      by auto
    then show ?thesis using False Cons.IH [of h] by simp
  qed
qed

lemma highestTop_Max:
  "highestTop L s sz p =
     Max (insert (stageTopY s)
            (otherTop L s ` {d \<in> set (diceObjects s). horizDist s p d < horizRadius sz}))"
  by (simp add: highestTop_def scanDice_Max)



lemma highestTop_none_near:
  "\<forall>d \<in> set (diceObjects s). \<not> horizDist s p d < horizRadius sz \<Longrightarrow>
     highestTop L s sz p = stageTopY s"
proof -
  assume "\<forall>d \<in> set (diceObjects s). \<not> horizDist s p d < horizRadius sz"
  then have "{d \<in> set (diceObjects s). horizDist s p d < horizRadius sz} = {}" by auto
  then show ?thesis by (simp only: highestTop_Max image_empty Max_singleton)
qed

section \<open>The state a spawn ends in\<close>

lemma spawnDie_returns:
  assumes "diceTemplate s = Some t"
  shows "fst (snd (spawnDie L p q vel rnd s)) = Some (next_ref s, Suc (next_ref s))"
    and "snd (snd (spawnDie L p q vel rnd s)) =
           snd (placeBody L (next_ref s) p q vel rnd (cloneMesh t p q s))"
  using assms by (simp_all add: spawnDie_loaded Let_def)

lemma spawnDie_body_height:
  assumes "diceTemplate s = Some t"
  shows "vy (body_position (bodies (fst (spawnDie L p q vel rnd s)) (Suc (next_ref s)))) =
     max (vy (body_position
            (preroll L 6 (addBody (Suc (next_ref s)) (world_bodies s))
               (bodies (fst (placeBody L (next_ref s) p q vel rnd (cloneMesh t p q s))))
               (Suc (next_ref s)))))
         (stageSafeY s (halfExtentsOf (boxSize L ((proto t)\<lparr>position := p, quaternion := q\<rparr>))))"
  using assms
  by (simp add: spawnDie_loaded Let_def liftAboveStage_body stageSafeY_def)

lemma spawnDie_mesh:
  assumes "diceTemplate s = Some t"
  shows "objects (fst (spawnDie L p q vel rnd s)) (next_ref s) =
     (if vy (body_position
            (preroll L 6 (addBody (Suc (next_ref s)) (world_bodies s))
               (bodies (fst (placeBody L (next_ref s) p q vel rnd (cloneMesh t p q s))))
               (Suc (next_ref s))))
         < stageSafeY s (halfExtentsOf (boxSize L ((proto t)\<lparr>position := p, quaternion := q\<rparr>)))
      then (proto t)\<lparr>position := p\<lparr>vy := stageSafeY s
               (halfExtentsOf (boxSize L ((proto t)\<lparr>position := p, quaternion := q\<rparr>)))\<rparr>,
             quaternion := q\<rparr>
      else (proto t)\<lparr>position := p, quaternion := q\<rparr>)"
  using assms
  by (simp add: spawnDie_loaded Let_def liftAboveStage_mesh stageSafeY_def)

lemma spawnDie_world:
  assumes "diceTemplate s = Some t"
  shows "world_bodies (fst (spawnDie L p q vel rnd s)) = addBody (Suc (next_ref s)) (world_bodies s)"
  using assms by (simp add: spawnDie_loaded Let_def)

lemma spawnDie_fields:
  assumes "diceTemplate s = Some t"
  shows "diceObjects (fst (spawnDie L p q vel rnd s)) =
           diceObjects s @
             [\<lparr>mesh = next_ref s, body = Suc (next_ref s), born = now s,
               halfHeight = vy (boxSize L ((proto t)\<lparr>position := p, quaternion := q\<rparr>)) / 2\<rparr>]"
    and "scene_children (fst (spawnDie L p q vel rnd s)) = scene_add (next_ref s) (scene_children s)"
    and "timeouts (fst (spawnDie L p q vel rnd s)) = timeouts s @ [(now s + 90000, Suc (next_ref s))]"
    and "next_ref (fst (spawnDie L p q vel rnd s)) = Suc (Suc (next_ref s))"
    and "now (fst (spawnDie L p q vel rnd s)) = now s"
  using assms by (simp_all add: spawnDie_loaded Let_def halfExtentsOf_def)

lemma spawnDie_unloaded:
  "diceTemplate s = None \<Longrightarrow> fst (spawnDie L p q vel rnd s) = say Warn ''dice template not loaded yet'' s"
  by (simp add: spawnDie_def)

lemma preroll_freeFall:
  "worldStep L = freeFall \<Longrightarrow> r \<in> set bs \<Longrightarrow>
     preroll L n bs h r = (fall1 (1 / 120) ^^ n) (h r)"
proof (induction n arbitrary: h)
  case 0
  show ?case by simp
next
  case (Suc n)
  then show ?case
    by (simp add: freeFall_def funpow_swap1)
qed

lemma stageSafeY_ge: "stageTopY s + vy he + 0.05 \<le> stageSafeY s he"
  by (simp add: stageSafeY_def)

section \<open>The concrete stage and the roll button\<close>

lemma smallDie_fields [simp]:
  "boxSize smallDie x = \<lparr>vx = 0.6, vy = 0.6, vz = 0.6\<rparr>"
  "worldStep smallDie = freeFall"
  by (simp_all add: smallDie_def)

lemma readyStage_fields [simp]:
  "diceTemplate readyStage = Some dieTemplate"
  "stageTopY readyStage = 2"
  "diceObjects readyStage = []"
  "next_ref readyStage = 5"
  "world_bodies readyStage = [4]"
  "scene_children readyStage = [0, 1, 3, 2]"
  "timeouts readyStage = []"
  "now readyStage = 0"
  by (simp_all add: readyStage_def initial_def)

lemma oneDie_fields [simp]:
  "diceTemplate oneDie = Some dieTemplate"
  "stageTopY oneDie = 2"
  "diceObjects oneDie = [\<lparr>mesh = 5, body = 6, born = 0, halfHeight = 0.3\<rparr>]"
  "next_ref oneDie = 7"
  "world_bodies oneDie = [4, 6]"
  "scene_children oneDie = [0, 1, 3, 2, 5]"
  "timeouts oneDie = [(90000, 6)]"
  "now oneDie = 0"
  "objects oneDie 5 = blankObject\<lparr>position := \<lparr>vx = 0, vy = 2.3, vz = 0\<rparr>\<rparr>"
  by (simp_all add: oneDie_def readyStage_def initial_def)

lemma floor_readyStage:
  "highestTop L (cloneMesh t p q readyStage) sz p = 2"
  by (simp add: highestTop_def)

lemma floor_oneDie:
  "0 < horizRadius sz \<Longrightarrow>
     highestTop smallDie (cloneMesh dieTemplate origin q oneDie) sz origin = 2.6"
  by (simp add: highestTop_def horizDist_def otherTop_def otherHalf_def origin_def)

lemma radius_smallDie: "0 < horizRadius (boxSize smallDie x)"
  by (simp add: horizRadius_def)

lemma dropPos_readyStage:
  "dropPos dieTemplate camera down readyStage = \<lparr>vx = 0, vy = 3.8, vz = 0\<rparr>"
  by (simp add: dropPos_def screenToWorldAtY_def camera_def down_def along_def dieHalf_def
        dieTemplate_def Let_def)



section \<open>Where a die is when the call returns\<close>

lemma settled_oneDie:
  "vy (body_position
     (preroll smallDie 6 (addBody 8 [4, 6])
        (bodies (fst (placeBody smallDie 7 origin identityQuat vel (0.5, 0.5, 0.5)
                       (cloneMesh dieTemplate origin identityQuat oneDie)))) 8)) =
   vy (body_position ((fall1 (1 / 120) ^^ 6)
         (newBody \<lparr>vx = 0.3, vy = 0.3, vz = 0.3\<rparr> \<lparr>vx = 0, vy = 2.92, vz = 0\<rparr>
            identityQuat vel (0.5, 0.5, 0.5))))"
proof -
  have f: "highestTop smallDie (cloneMesh dieTemplate origin identityQuat oneDie)
     (boxSize smallDie (objects (cloneMesh dieTemplate origin identityQuat oneDie) 7)) origin = 2.6"
    by (rule floor_oneDie [OF radius_smallDie])
  have p: "snd (placeBody smallDie 7 origin identityQuat vel (0.5, 0.5, 0.5)
               (cloneMesh dieTemplate origin identityQuat oneDie)) = clampY (minSafeY 2.6 0.3) origin"
    by (simp only: placeBody_fields f) simp
  have p': "clampY (minSafeY 2.6 0.3) origin = \<lparr>vx = 0, vy = 2.92, vz = 0\<rparr>"
    by (simp add: clampY_def minSafeY_def origin_def)
  have b: "bodies (fst (placeBody smallDie 7 origin identityQuat vel (0.5, 0.5, 0.5)
                       (cloneMesh dieTemplate origin identityQuat oneDie))) 8 =
           newBody \<lparr>vx = 0.3, vy = 0.3, vz = 0.3\<rparr> \<lparr>vx = 0, vy = 2.92, vz = 0\<rparr>
            identityQuat vel (0.5, 0.5, 0.5)"
    by (simp only: placeBody_fields(2) p p') (simp add: halfExtentsOf_def)
  have "preroll smallDie 6 (addBody 8 [4, 6]) B 8 = (fall1 (1 / 120) ^^ 6) (B 8)" for B
    by (rule preroll_freeFall) (simp_all add: addBody_def)
  then show ?thesis
    by (simp only: b)
qed

lemma fall6_down:
  "vy (body_position ((fall1 (1 / 120) ^^ 6)
         (newBody he \<lparr>vx = 0, vy = 2.92, vz = 0\<rparr> identityQuat (Some down) (0.5, 0.5, 0.5))))
     = 685363 / 240000"
  by (simp add: eval_nat_numeral fall1_def newBody_def down_def)


lemma fall6_still:
  "vy (body_position ((fall1 (1 / 120) ^^ 6)
         (newBody he \<lparr>vx = 0, vy = y, vz = 0\<rparr> identityQuat None (0.5, 0.5, 0.5))))
     = y - 3437 / 240000"
  by (simp add: eval_nat_numeral fall1_def newBody_def)

lemma settled_readyStage:
  "vy (body_position
     (preroll smallDie 6 (addBody 6 [4])
        (bodies (fst (placeBody smallDie 5 origin identityQuat vel (0.5, 0.5, 0.5)
                       (cloneMesh dieTemplate origin identityQuat readyStage)))) 6)) =
   vy (body_position ((fall1 (1 / 120) ^^ 6)
         (newBody \<lparr>vx = 0.3, vy = 0.3, vz = 0.3\<rparr> \<lparr>vx = 0, vy = 2.32, vz = 0\<rparr>
            identityQuat vel (0.5, 0.5, 0.5))))"
proof -
  have f: "highestTop smallDie (cloneMesh dieTemplate origin identityQuat readyStage)
     (boxSize smallDie (objects (cloneMesh dieTemplate origin identityQuat readyStage) 5)) origin = 2"
    by (rule floor_readyStage)
  have p: "snd (placeBody smallDie 5 origin identityQuat vel (0.5, 0.5, 0.5)
               (cloneMesh dieTemplate origin identityQuat readyStage)) = clampY (minSafeY 2 0.3) origin"
    by (simp only: placeBody_fields f) simp
  have p': "clampY (minSafeY 2 0.3) origin = \<lparr>vx = 0, vy = 2.32, vz = 0\<rparr>"
    by (simp add: clampY_def minSafeY_def origin_def)
  have b: "bodies (fst (placeBody smallDie 5 origin identityQuat vel (0.5, 0.5, 0.5)
                       (cloneMesh dieTemplate origin identityQuat readyStage))) 6 =
           newBody \<lparr>vx = 0.3, vy = 0.3, vz = 0.3\<rparr> \<lparr>vx = 0, vy = 2.32, vz = 0\<rparr>
            identityQuat vel (0.5, 0.5, 0.5)"
    by (simp only: placeBody_fields(2) p p') (simp add: halfExtentsOf_def)
  have "preroll smallDie 6 (addBody 6 [4]) B 6 = (fall1 (1 / 120) ^^ 6) (B 6)" for B
    by (rule preroll_freeFall) (simp_all add: addBody_def)
  then show ?thesis
    by (simp only: b)
qed

lemma stageSafeY_smallDie:
  "stageTopY s = 2 \<Longrightarrow> stageSafeY s (halfExtentsOf (boxSize smallDie x)) = 2.35"
  by (simp add: stageSafeY_def halfExtentsOf_def)

text \<open>
  C2, as amended. Every call of \<^verbatim>\<open>spawnDie\<close> with a loaded template adds the
  body to the world, runs up to six sub-steps, and then lifts the body (and the visual
  with it) to stage top + largest half-extent + 0.05 whenever the body is below that
  height: the body ends the call at the larger of where the sub-steps left it and that
  height, hence never below stage top + half-height + 0.05. The tops of nearby dice play
  no part in this second check, and the visual's Y is rewritten only when the check
  lifts.
\<close>

theorem spawn_ends_above_stage:
  assumes "diceTemplate s = Some t"
  shows "let m = next_ref s; b = Suc m;
             s1 = cloneMesh t p q s;
             he = halfExtentsOf (boxSize L (objects s1 m));
             s2 = fst (placeBody L m p q vel rnd s1);
             settled = preroll L 6 (world_bodies s2) (bodies s2);
             safe = stageTopY s + max (vx he) (max (vy he) (vz he)) + 0.05;
             s' = fst (spawnDie L p q vel rnd s)
         in fst (snd (spawnDie L p q vel rnd s)) = Some (m, b) \<and>
            b \<in> set (world_bodies s') \<and>
            vy (body_position (bodies s' b)) = max (vy (body_position (settled b))) safe \<and>
            vy (position (objects s' m)) =
              (if vy (body_position (settled b)) < safe then safe else vy p) \<and>
            stageTopY s + vy he + 0.05 \<le> vy (body_position (bodies s' b))"
proof -
  have "stageTopY s + vy he + 0.05 \<le> max y (stageSafeY s he)" for he y
    using stageSafeY_ge [of s he] by simp
  then show ?thesis
    using assms
    by (simp add: Let_def spawnDie_returns spawnDie_world spawnDie_body_height spawnDie_mesh
          addBody_def)
       (simp add: stageSafeY_def)
qed

theorem spawn_ends_above_stage_witness:
  "diceTemplate oneDie = Some dieTemplate \<and>
   fst (snd (spawnDie smallDie origin identityQuat (Some down) (0.5, 0.5, 0.5) oneDie)) = Some (7, 8) \<and>
   8 \<in> set (world_bodies (fst (spawnDie smallDie origin identityQuat (Some down) (0.5, 0.5, 0.5) oneDie))) \<and>
   stageTopY oneDie + 0.6 / 2 + 0.05
     \<le> vy (body_position
           (bodies (fst (spawnDie smallDie origin identityQuat (Some down) (0.5, 0.5, 0.5) oneDie)) 8))"
proof -
  have t: "diceTemplate oneDie = Some dieTemplate" by simp
  from spawn_ends_above_stage [OF t, where L = smallDie and p = origin and q = identityQuat
         and vel = "Some down" and rnd = "(0.5, 0.5, 0.5)"]
  show ?thesis
    by (simp add: Let_def halfExtentsOf_def)
qed

text \<open>
  The claim as stated fails next to a resting die: the floor of step 3 is 2.6, the new
  die (half-height 0.3, thrown downwards at 1 m/s) ends the call at about 2.856, below
  2.6 + 0.3, and the second check (threshold 2.35) does not lift it; the visual is still
  at the requested Y and not at the body's.
\<close>

theorem second_check_ignores_dice_counterexample:
  "highestTop smallDie (cloneMesh dieTemplate origin identityQuat oneDie)
     (boxSize smallDie (objects (cloneMesh dieTemplate origin identityQuat oneDie) 7)) origin = 2.6 \<and>
   vy (body_position
        (bodies (fst (spawnDie smallDie origin identityQuat (Some down) (0.5, 0.5, 0.5) oneDie)) 8))
     < 2.6 + 0.6 / 2 \<and>
   vy (position
        (objects (fst (spawnDie smallDie origin identityQuat (Some down) (0.5, 0.5, 0.5) oneDie)) 7))
     \<noteq> vy (body_position
        (bodies (fst (spawnDie smallDie origin identityQuat (Some down) (0.5, 0.5, 0.5) oneDie)) 8))"
proof -
  have t: "diceTemplate oneDie = Some dieTemplate" by simp
  have f: "highestTop smallDie (cloneMesh dieTemplate origin identityQuat oneDie)
     (boxSize smallDie (objects (cloneMesh dieTemplate origin identityQuat oneDie) 7)) origin = 2.6"
    by (rule floor_oneDie [OF radius_smallDie])
  have s: "vy (body_position
     (preroll smallDie 6 (addBody 8 [4, 6])
        (bodies (fst (placeBody smallDie 7 origin identityQuat (Some down) (0.5, 0.5, 0.5)
                       (cloneMesh dieTemplate origin identityQuat oneDie)))) 8)) = 685363 / 240000"
    by (simp only: settled_oneDie fall6_down)
  have r: "next_ref oneDie = 7" "Suc 7 = 8" "world_bodies oneDie = [4, 6]"
    by simp_all
  have g: "stageSafeY oneDie (halfExtentsOf (boxSize smallDie x)) = 2.35" for x
    by (rule stageSafeY_smallDie) simp
  have b: "vy (body_position
        (bodies (fst (spawnDie smallDie origin identityQuat (Some down) (0.5, 0.5, 0.5) oneDie)) 8))
        = 685363 / 240000"
    using spawnDie_body_height [OF t, of smallDie origin identityQuat "Some down" "(0.5, 0.5, 0.5)",
            unfolded r s g]
    by simp
  have m: "vy (position
        (objects (fst (spawnDie smallDie origin identityQuat (Some down) (0.5, 0.5, 0.5) oneDie)) 7))
        = 0"
    using spawnDie_mesh [OF t, of smallDie origin identityQuat "Some down" "(0.5, 0.5, 0.5)",
            unfolded r s g]
    by (simp add: origin_def)
  show ?thesis
    by (simp only: f b m) simp
qed

section \<open>The caller's vector and the visual\<close>

text \<open>
  C10, as amended. When the requested Y is below floor + half-height + 0.02,
  \<^verbatim>\<open>spawnDie\<close> overwrites the Y of the caller's vector with that value. The
  visual was given the requested position before the clamp; at the end of the call it
  still has it, unless the second check found the body below stage top + largest
  half-extent + 0.05, in which case the visual's Y is that height.
\<close>

theorem spawn_overwrites_callers_vector:
  assumes "diceTemplate s = Some t"
    and "vy p < highestTop L (cloneMesh t p q s)
                  (boxSize L (objects (cloneMesh t p q s) (next_ref s))) p
                + vy (boxSize L (objects (cloneMesh t p q s) (next_ref s))) / 2 + 0.02"
  shows "let m = next_ref s; b = Suc m;
             s1 = cloneMesh t p q s;
             sz = boxSize L (objects s1 m);
             he = halfExtentsOf sz;
             s2 = fst (placeBody L m p q vel rnd s1);
             settled = preroll L 6 (world_bodies s2) (bodies s2);
             safe = stageTopY s + max (vx he) (max (vy he) (vz he)) + 0.05;
             s' = fst (spawnDie L p q vel rnd s)
         in snd (snd (spawnDie L p q vel rnd s)) =
              p\<lparr>vy := highestTop L s1 sz p + vy sz / 2 + 0.02\<rparr> \<and>
            position (objects s' m) =
              (if vy (body_position (settled b)) < safe then p\<lparr>vy := safe\<rparr> else p)"
  using assms
  by (simp add: Let_def spawnDie_returns spawnDie_mesh addBody_def stageSafeY_def minSafeY_def
        clampY_def halfExtentsOf_def)

theorem spawn_overwrites_callers_vector_witness:
  "diceTemplate oneDie = Some dieTemplate \<and>
   vy origin < 2.6 + 0.6 / 2 + 0.02 \<and>
   snd (snd (spawnDie smallDie origin identityQuat None (0.5, 0.5, 0.5) oneDie)) =
     origin\<lparr>vy := 2.6 + 0.6 / 2 + 0.02\<rparr> \<and>
   position (objects (fst (spawnDie smallDie origin identityQuat None (0.5, 0.5, 0.5) oneDie)) 7)
     = origin"
proof -
  have t: "diceTemplate oneDie = Some dieTemplate" by simp
  have f: "highestTop smallDie (cloneMesh dieTemplate origin identityQuat oneDie)
     (boxSize smallDie (objects (cloneMesh dieTemplate origin identityQuat oneDie) (next_ref oneDie)))
     origin = 2.6"
    by (rule floor_oneDie [OF radius_smallDie])
  have z: "boxSize smallDie x = \<lparr>vx = 0.6, vy = 0.6, vz = 0.6\<rparr>" for x
    by simp
  have f2: "highestTop smallDie (cloneMesh dieTemplate origin identityQuat oneDie)
     \<lparr>vx = 0.6, vy = 0.6, vz = 0.6\<rparr> origin = 2.6"
    by (rule floor_oneDie) (simp add: horizRadius_def)
  have lt: "vy origin < 2.6 + vy \<lparr>vx = 0.6, vy = 0.6, vz = 0.6\<rparr> / 2 + 0.02"
    by (simp add: origin_def)
  have h: "vy origin < highestTop smallDie (cloneMesh dieTemplate origin identityQuat oneDie)
                  (boxSize smallDie (objects (cloneMesh dieTemplate origin identityQuat oneDie) (next_ref oneDie))) origin
                + vy (boxSize smallDie (objects (cloneMesh dieTemplate origin identityQuat oneDie) (next_ref oneDie))) / 2 + 0.02"
    by (simp only: z f2 lt)
  have r: "next_ref oneDie = 7" "Suc 7 = 8" "world_bodies oneDie = [4, 6]"
    by simp_all
  have w: "world_bodies (fst (placeBody smallDie 7 origin identityQuat None (0.5, 0.5, 0.5)
             (cloneMesh dieTemplate origin identityQuat oneDie))) = addBody 8 [4, 6]"
    by simp
  have s: "vy (body_position
     (preroll smallDie 6 (addBody 8 [4, 6])
        (bodies (fst (placeBody smallDie 7 origin identityQuat None (0.5, 0.5, 0.5)
                       (cloneMesh dieTemplate origin identityQuat oneDie)))) 8)) = 2.92 - 3437 / 240000"
    by (simp only: settled_oneDie fall6_still)
  have e: "stageTopY oneDie = 2" by simp
  from spawn_overwrites_callers_vector [OF t h, where vel = None and rnd = "(0.5, 0.5, 0.5)",
         unfolded Let_def r z f2 w s e]
  show ?thesis
    using t by (simp add: halfExtentsOf_def origin_def)
qed

text \<open>
  The claim as stated fails on the empty stage: the request at Y = 0 is clamped to 2.32,
  the body falls a little during the sub-steps, the second check lifts body and visual
  to 2.35, and the visual no longer has the requested Y = 0.
\<close>

theorem visual_lifted_during_spawn_counterexample:
  "diceTemplate readyStage = Some dieTemplate \<and>
   vy origin = 0 \<and>
   vy origin < highestTop smallDie (cloneMesh dieTemplate origin identityQuat readyStage)
     (boxSize smallDie (objects (cloneMesh dieTemplate origin identityQuat readyStage) 5)) origin
     + 0.6 / 2 + 0.02 \<and>
   vy (position
        (objects (fst (spawnDie smallDie origin identityQuat None (0.5, 0.5, 0.5) readyStage)) 5))
     = 2.35"
proof -
  have t: "diceTemplate readyStage = Some dieTemplate" by simp
  have r: "next_ref readyStage = 5" "Suc 5 = 6" "world_bodies readyStage = [4]"
    by simp_all
  have g: "stageSafeY readyStage (halfExtentsOf (boxSize smallDie x)) = 2.35" for x
    by (rule stageSafeY_smallDie) simp
  have s: "vy (body_position
     (preroll smallDie 6 (addBody 6 [4])
        (bodies (fst (placeBody smallDie 5 origin identityQuat None (0.5, 0.5, 0.5)
                       (cloneMesh dieTemplate origin identityQuat readyStage)))) 6)) = 2.32 - 3437 / 240000"
    by (simp only: settled_readyStage fall6_still)
  have m: "vy (position
        (objects (fst (spawnDie smallDie origin identityQuat None (0.5, 0.5, 0.5) readyStage)) 5))
        = 2.35"
    using spawnDie_mesh [OF t, of smallDie origin identityQuat None "(0.5, 0.5, 0.5)",
            unfolded r s g]
    by simp
  show ?thesis
    using m by (simp add: floor_readyStage origin_def)
qed

section \<open>Placement, tied to the state a spawn returns\<close>

lemma sqrt_less_iff: "0 \<le> a \<Longrightarrow> (sqrt a < r) = (0 < r \<and> a < r * r)"
proof
  assume a: "0 \<le> a" and l: "sqrt a < r"
  have "0 \<le> sqrt a" using a by simp
  then have r: "0 < r" using l by linarith
  have "sqrt a * sqrt a < r * r"
    using l \<open>0 \<le> sqrt a\<close> r by (intro mult_strict_mono') auto
  then show "0 < r \<and> a < r * r" using a r by simp
next
  assume a: "0 \<le> a" and "0 < r \<and> a < r * r"
  then have "a < r\<^sup>2" "0 \<le> r" by (simp_all add: power2_eq_square)
  then show "sqrt a < r" by (intro real_less_lsqrt) auto
qed

lemma horizDist_less:
  "(horizDist s p d < r) =
     (0 < r \<and>
      (vx (position (objects s (mesh d))) - vx p) * (vx (position (objects s (mesh d))) - vx p) +
      (vz (position (objects s (mesh d))) - vz p) * (vz (position (objects s (mesh d))) - vz p)
        < r * r)"
  by (simp add: horizDist_def Let_def sqrt_less_iff)

lemma spawnDie_finish:
  assumes "diceTemplate s = Some t"
  shows "fst (spawnDie L p q vel rnd s) =
           finish L (next_ref s) (Suc (next_ref s))
             (halfExtentsOf (boxSize L (objects (cloneMesh t p q s) (next_ref s))))
             (fst (placeBody L (next_ref s) p q vel rnd (cloneMesh t p q s)))"
  using assms by (simp add: spawnDie_loaded Let_def finish_def)

lemma spawnDie_exists:
  assumes "diceTemplate s = Some t"
  shows "Suc (next_ref s) \<in> set (world_bodies (fst (spawnDie L p q vel rnd s)))"
    and "next_ref s \<in> set (scene_children (fst (spawnDie L p q vel rnd s)))"
    and "last (diceObjects (fst (spawnDie L p q vel rnd s))) =
           \<lparr>mesh = next_ref s, body = Suc (next_ref s), born = now s,
            halfHeight = vy (boxSize L (objects (cloneMesh t p q s) (next_ref s))) / 2\<rparr>"
  using assms
  by (simp_all add: spawnDie_world spawnDie_fields addBody_def scene_add_def)


lemma spawnDie_body_xz:
  assumes "diceTemplate s = Some t"
  shows "vx (body_position (bodies (fst (spawnDie L p q vel rnd s)) (Suc (next_ref s)))) =
     vx (body_position
            (preroll L 6 (addBody (Suc (next_ref s)) (world_bodies s))
               (bodies (fst (placeBody L (next_ref s) p q vel rnd (cloneMesh t p q s))))
               (Suc (next_ref s))))"
   and "vz (body_position (bodies (fst (spawnDie L p q vel rnd s)) (Suc (next_ref s)))) =
     vz (body_position
            (preroll L 6 (addBody (Suc (next_ref s)) (world_bodies s))
               (bodies (fst (placeBody L (next_ref s) p q vel rnd (cloneMesh t p q s))))
               (Suc (next_ref s))))"
  using assms
  by (simp_all add: spawnDie_loaded Let_def liftAboveStage_body)

lemma settled_freeFall:
  assumes "worldStep L = freeFall"
  shows "preroll L 6 (addBody (Suc (next_ref s)) (world_bodies s))
           (bodies (fst (placeBody L (next_ref s) p q vel rnd (cloneMesh t p q s))))
           (Suc (next_ref s)) =
         (fall1 (1 / 120) ^^ 6)
           (newBody (halfExtentsOf (boxSize L (objects (cloneMesh t p q s) (next_ref s))))
              (snd (placeBody L (next_ref s) p q vel rnd (cloneMesh t p q s))) q vel rnd)"
proof -
  have "Suc (next_ref s) \<in> set (addBody (Suc (next_ref s)) (world_bodies s))"
    by (simp add: addBody_def)
  from preroll_freeFall [OF assms this] show ?thesis
    by (simp only: placeBody_fields cloneMesh_fields fun_upd_same)
qed

lemma fall6_newBody:
  "body_position ((fall1 (1 / 120) ^^ 6) (newBody he p q vel rnd)) =
     (case vel of
        None \<Rightarrow> \<lparr>vx = vx p, vy = vy p - 3437 / 240000, vz = vz p\<rparr>
      | Some v \<Rightarrow> \<lparr>vx = vx p + vx v / 20, vy = vy p + vy v / 20 - 3437 / 240000,
                   vz = vz p + vz v / 20\<rparr>)"
proof (cases rnd)
  case (fields r1 r2 r3)
  show ?thesis
  proof (cases vel)
    case None
    then show ?thesis using fields
      by (simp add: eval_nat_numeral fall1_def newBody_def)
  next
    case (Some v)
    have "(vy v - 491 / 6000) / 120 + ((vy v - 491 / 3000) / 120 +
           ((vy v - 491 / 2000) / 120 + ((vy v - 491 / 1500) / 120 +
            ((vy v - 491 / 1200) / 120 + (vy v - 491 / 1000) / 120)))) =
          vy v / 20 - 3437 / 240000"
      by (simp add: field_simps)
    then show ?thesis using fields Some
      by (simp add: eval_nat_numeral fall1_def newBody_def)
  qed
qed

lemma spawn_tie:
  assumes "diceTemplate s = Some t"
  shows "let m = next_ref s; b = Suc m;
             s1 = cloneMesh t p q s;
             sz = boxSize L (objects s1 m);
             he = halfExtentsOf sz;
             placed = placeBody L m p q vel rnd s1;
             s' = fst (spawnDie L p q vel rnd s)
         in snd placed = clampY (highestTop L s1 sz p + vy he + 0.02) p \<and>
            body_position (bodies (fst placed) b) = snd placed \<and>
            s' = finish L m b he (fst placed) \<and>
            fst (snd (spawnDie L p q vel rnd s)) = Some (m, b) \<and>
            snd (snd (spawnDie L p q vel rnd s)) = snd placed \<and>
            b \<in> set (world_bodies s') \<and> m \<in> set (scene_children s') \<and>
            last (diceObjects s') = \<lparr>mesh = m, body = b, born = now s, halfHeight = vy he\<rparr> \<and>
            vy (body_position (bodies s' b)) =
              max (vy (body_position
                         (preroll L 6 (world_bodies (fst placed)) (bodies (fst placed)) b)))
                  (stageTopY s + max (vx he) (max (vy he) (vz he)) + 0.05) \<and>
            vx (body_position (bodies s' b)) =
              vx (body_position
                    (preroll L 6 (world_bodies (fst placed)) (bodies (fst placed)) b)) \<and>
            vz (body_position (bodies s' b)) =
              vz (body_position
                    (preroll L 6 (world_bodies (fst placed)) (bodies (fst placed)) b))"
  unfolding Let_def
  using spawnDie_finish [OF assms, of L p q vel rnd]
    spawnDie_exists [OF assms, of L p q vel rnd]
    spawnDie_returns [OF assms, of L p q vel rnd]
    spawnDie_body_height [OF assms, of L p q vel rnd]
    spawnDie_body_xz [OF assms, of L p q vel rnd]
  by (simp add: minSafeY_def stageSafeY_def halfExtentsOf_def)


lemma newBody_shapes [simp]: "shapes (newBody he p q vel rnd) = [Box he]"
  by (cases rnd) (simp add: newBody_def)

section \<open>Spawns on the concrete stage\<close>



lemma spawnDie_freeFall:
  assumes "diceTemplate s = Some t" and "worldStep L = freeFall"
  shows "vy (body_position (bodies (fst (spawnDie L p q vel rnd s)) (Suc (next_ref s)))) =
           max (vy (snd (snd (spawnDie L p q vel rnd s)))
                  + (case vel of None \<Rightarrow> 0 | Some v \<Rightarrow> vy v / 20) - 3437 / 240000)
               (stageSafeY s (halfExtentsOf (boxSize L ((proto t)\<lparr>position := p, quaternion := q\<rparr>))))"
    and "vx (body_position (bodies (fst (spawnDie L p q vel rnd s)) (Suc (next_ref s)))) =
           vx (snd (snd (spawnDie L p q vel rnd s))) + (case vel of None \<Rightarrow> 0 | Some v \<Rightarrow> vx v / 20)"
    and "vz (body_position (bodies (fst (spawnDie L p q vel rnd s)) (Suc (next_ref s)))) =
           vz (snd (snd (spawnDie L p q vel rnd s))) + (case vel of None \<Rightarrow> 0 | Some v \<Rightarrow> vz v / 20)"
  by (simp_all only: spawnDie_body_height [OF assms(1)] spawnDie_body_xz [OF assms(1)]
        settled_freeFall [OF assms(2)] fall6_newBody spawnDie_returns(2) [OF assms(1)])
     (simp_all split: option.split)

lemma spawn_smallDie:
  assumes t: "diceTemplate s = Some dieTemplate" and st: "stageTopY s = 2"
    and fl: "highestTop smallDie (cloneMesh dieTemplate p q s)
               (boxSize smallDie (objects (cloneMesh dieTemplate p q s) (next_ref s))) p = fl"
  shows "snd (snd (spawnDie smallDie p q vel rnd s)) =
           \<lparr>vx = vx p, vy = max (vy p) (fl + 0.32), vz = vz p\<rparr>"
    and "body_position (bodies (fst (spawnDie smallDie p q vel rnd s)) (Suc (next_ref s))) =
           \<lparr>vx = vx p + (case vel of None \<Rightarrow> 0 | Some v \<Rightarrow> vx v / 20),
            vy = max (max (vy p) (fl + 0.32) + (case vel of None \<Rightarrow> 0 | Some v \<Rightarrow> vy v / 20)
                        - 3437 / 240000) 2.35,
            vz = vz p + (case vel of None \<Rightarrow> 0 | Some v \<Rightarrow> vz v / 20)\<rparr>"
proof -
  have w: "worldStep smallDie = freeFall" by simp
  have g: "stageSafeY s (halfExtentsOf (boxSize smallDie x)) = 2.35" for x
    by (rule stageSafeY_smallDie [OF st])
  have m: "minSafeY fl (vy (boxSize smallDie x) / 2) = fl + 0.32" for x
    by (simp add: minSafeY_def)
  show r: "snd (snd (spawnDie smallDie p q vel rnd s)) =
           \<lparr>vx = vx p, vy = max (vy p) (fl + 0.32), vz = vz p\<rparr>"
    by (simp only: spawnDie_returns(2) [OF t] placeBody_fields(1) fl m)
       (cases p, simp add: clampY_def)
  show "body_position (bodies (fst (spawnDie smallDie p q vel rnd s)) (Suc (next_ref s))) =
           \<lparr>vx = vx p + (case vel of None \<Rightarrow> 0 | Some v \<Rightarrow> vx v / 20),
            vy = max (max (vy p) (fl + 0.32) + (case vel of None \<Rightarrow> 0 | Some v \<Rightarrow> vy v / 20)
                        - 3437 / 240000) 2.35,
            vz = vz p + (case vel of None \<Rightarrow> 0 | Some v \<Rightarrow> vz v / 20)\<rparr>"
    using spawnDie_freeFall [OF t w, of p q vel rnd, unfolded g r]
    by (cases "body_position (bodies (fst (spawnDie smallDie p q vel rnd s)) (Suc (next_ref s)))")
       simp
qed

lemma pair_fields [simp]:
  "diceTemplate pair = Some dieTemplate"
  "stageTopY pair = 2"
  "diceObjects pair = [\<lparr>mesh = 5, body = 6, born = 0, halfHeight = 0.3\<rparr>,
                       \<lparr>mesh = 7, body = 8, born = 0, halfHeight = 0.3\<rparr>]"
  "next_ref pair = 9"
  "world_bodies pair = [4, 6, 8]"
  "scene_children pair = [0, 1, 3, 2, 5, 7]"
  "now pair = 0"
  "objects pair 5 = blankObject\<lparr>position := \<lparr>vx = 0.3, vy = 2.3, vz = 0.4\<rparr>\<rparr>"
  "objects pair 7 = blankObject\<lparr>position := \<lparr>vx = - 0.57, vy = 3.0, vz = 0\<rparr>\<rparr>"
  "bodies pair 6 = newBody \<lparr>vx = 0.3, vy = 0.3, vz = 0.3\<rparr> \<lparr>vx = 0.3, vy = 2.3, vz = 0.4\<rparr>
                     identityQuat None (0.5, 0.5, 0.5)"
  "bodies pair 8 = newBody \<lparr>vx = 0.3, vy = 0.3, vz = 0.3\<rparr> \<lparr>vx = - 0.57, vy = 3.0, vz = 0\<rparr>
                     identityQuat None (0.5, 0.5, 0.5)"
  by (simp_all add: pair_def readyStage_def initial_def)

lemma radius_smallDie_value: "horizRadius (boxSize smallDie x) = 0.54"
  by (simp add: horizRadius_def)






lemma spawn_readyStage:
  "snd (snd (spawnDie smallDie origin identityQuat None rnd readyStage)) = \<lparr>vx = 0, vy = 2.32, vz = 0\<rparr>"
  "body_position (bodies (fst (spawnDie smallDie origin identityQuat None rnd readyStage)) 6) =
     \<lparr>vx = 0, vy = 2.35, vz = 0\<rparr>"
proof -
  have t: "diceTemplate readyStage = Some dieTemplate" and st: "stageTopY readyStage = 2" by simp_all
  have fl: "highestTop smallDie (cloneMesh dieTemplate origin identityQuat readyStage)
               (boxSize smallDie (objects (cloneMesh dieTemplate origin identityQuat readyStage) (next_ref readyStage)))
               origin = 2"
    by (rule floor_readyStage)
  show "snd (snd (spawnDie smallDie origin identityQuat None rnd readyStage)) = \<lparr>vx = 0, vy = 2.32, vz = 0\<rparr>"
    using spawn_smallDie(1) [OF t st fl, of None rnd] by (simp add: origin_def)
  show "body_position (bodies (fst (spawnDie smallDie origin identityQuat None rnd readyStage)) 6) =
     \<lparr>vx = 0, vy = 2.35, vz = 0\<rparr>"
    using spawn_smallDie(2) [OF t st fl, of None rnd] by (simp add: origin_def)
qed

lemma spawn_roll_button:
  "body_position (bodies (fst (spawnDie smallDie (dropPos dieTemplate camera down readyStage)
       identityQuat None rnd readyStage)) 6) = \<lparr>vx = 0, vy = 3.8 - 3437 / 240000, vz = 0\<rparr>"
proof -
  have t: "diceTemplate readyStage = Some dieTemplate" and st: "stageTopY readyStage = 2" by simp_all
  have fl: "highestTop smallDie (cloneMesh dieTemplate p identityQuat readyStage)
               (boxSize smallDie (objects (cloneMesh dieTemplate p identityQuat readyStage) (next_ref readyStage)))
               p = 2" for p
    by (rule floor_readyStage)
  show ?thesis
    using spawn_smallDie(2) [OF t st fl, of _ None rnd] by (simp add: dropPos_readyStage)
qed




lemma far_pair:
  assumes r: "horizRadius sz = 0.54"
  shows "\<forall>d \<in> set (diceObjects pair).
           \<not> horizDist (cloneMesh dieTemplate \<lparr>vx = 5, vy = 0, vz = 5\<rparr> q pair)
                 \<lparr>vx = 5, vy = 0, vz = 5\<rparr> d < horizRadius sz"
  unfolding r by (simp only: horizDist_less) simp





section \<open>The floor of the clamp\<close>




section \<open>A die is created above its floor\<close>




section \<open>The height of a die without neighbours\<close>

text \<open>
  C1, as amended. For every spawn with no die within the exclusion radius of the target
  the floor is the stage top. The die's initial position, that is the position its body
  is created with and the caller's vector holds after the call, has the X and Z of the
  target, and its Y is the larger of the requested Y and stage top + half-height + 0.02:
  exactly stage top + half-height + 0.02 when the requested Y is not above that value.
  The call returns the state in which this body is in the world and its visual in the
  scene, after the sub-steps and the second check have moved the body: its X and Z are
  where the sub-steps left them, its Y the larger of where they left it and stage top +
  largest half-extent + 0.05.
\<close>

theorem spawn_height_without_neighbours:
  assumes "diceTemplate s = Some t"
    and "\<forall>d \<in> set (diceObjects s).
           \<not> horizDist (cloneMesh t p q s) p d
               < horizRadius (boxSize L (objects (cloneMesh t p q s) (next_ref s)))"
  shows "let m = next_ref s; b = Suc m;
             s1 = cloneMesh t p q s;
             sz = boxSize L (objects s1 m);
             he = halfExtentsOf sz;
             placed = placeBody L m p q vel rnd s1;
             settled = preroll L 6 (world_bodies (fst placed)) (bodies (fst placed));
             s' = fst (spawnDie L p q vel rnd s)
         in highestTop L s1 sz p = stageTopY s \<and>
            snd (snd (spawnDie L p q vel rnd s)) = snd placed \<and>
            body_position (bodies (fst placed) b) = snd placed \<and>
            vx (snd placed) = vx p \<and> vz (snd placed) = vz p \<and>
            vy (snd placed) = max (vy p) (stageTopY s + vy sz / 2 + 0.02) \<and>
            (vy p \<le> stageTopY s + vy sz / 2 + 0.02 \<longrightarrow>
               vy (snd placed) = stageTopY s + vy sz / 2 + 0.02) \<and>
            s' = finish L m b he (fst placed) \<and>
            fst (snd (spawnDie L p q vel rnd s)) = Some (m, b) \<and>
            b \<in> set (world_bodies s') \<and> m \<in> set (scene_children s') \<and>
            last (diceObjects s') = \<lparr>mesh = m, body = b, born = now s, halfHeight = vy he\<rparr> \<and>
            vx (body_position (bodies s' b)) = vx (body_position (settled b)) \<and>
            vz (body_position (bodies s' b)) = vz (body_position (settled b)) \<and>
            vy (body_position (bodies s' b)) =
              max (vy (body_position (settled b)))
                  (stageTopY s + max (vx he) (max (vy he) (vz he)) + 0.05)"
proof -
  let ?s1 = "cloneMesh t p q s"
  let ?sz = "boxSize L (objects ?s1 (next_ref s))"
  let ?he = "halfExtentsOf ?sz"
  let ?pl = "placeBody L (next_ref s) p q vel rnd ?s1"
  note T = spawn_tie [OF assms(1), where L = L and p = p and q = q and vel = vel and rnd = rnd,
      unfolded Let_def]
  have A: "highestTop L ?s1 ?sz p = stageTopY s"
    using highestTop_none_near [of ?s1 p ?sz L] assms(2) by simp
  have B: "vx (snd ?pl) = vx p" "vz (snd ?pl) = vz p"
    "vy (snd ?pl) = max (vy p) (stageTopY s + vy ?sz / 2 + 0.02)"
    using T A by (simp_all add: halfExtentsOf_def)
  have C: "vy p \<le> stageTopY s + vy ?sz / 2 + 0.02 \<longrightarrow>
               vy (snd ?pl) = stageTopY s + vy ?sz / 2 + 0.02"
    using B(3) by simp
  show ?thesis
    unfolding Let_def
    by (intro conjI; (rule A B C | use T in blast))
qed

theorem spawn_height_without_neighbours_witness:
  "diceTemplate readyStage = Some dieTemplate \<and> diceObjects readyStage = [] \<and>
   stageTopY readyStage = 2 \<and>
   highestTop smallDie (cloneMesh dieTemplate origin identityQuat readyStage)
     (boxSize smallDie (objects (cloneMesh dieTemplate origin identityQuat readyStage) 5)) origin = 2 \<and>
   snd (snd (spawnDie smallDie origin identityQuat None (0.5, 0.5, 0.5) readyStage)) =
     \<lparr>vx = 0, vy = 2.32, vz = 0\<rparr> \<and>
   vy (snd (snd (spawnDie smallDie origin identityQuat None (0.5, 0.5, 0.5) readyStage))) =
     2 + 0.6 / 2 + 0.02 \<and>
   fst (snd (spawnDie smallDie origin identityQuat None (0.5, 0.5, 0.5) readyStage)) = Some (5, 6) \<and>
   6 \<in> set (world_bodies (fst (spawnDie smallDie origin identityQuat None (0.5, 0.5, 0.5) readyStage))) \<and>
   5 \<in> set (scene_children (fst (spawnDie smallDie origin identityQuat None (0.5, 0.5, 0.5) readyStage))) \<and>
   body_position (bodies (fst (spawnDie smallDie origin identityQuat None (0.5, 0.5, 0.5) readyStage)) 6) =
     \<lparr>vx = 0, vy = 2.35, vz = 0\<rparr> \<and>
   diceObjects pair = [\<lparr>mesh = 5, body = 6, born = 0, halfHeight = 0.3\<rparr>,
                       \<lparr>mesh = 7, body = 8, born = 0, halfHeight = 0.3\<rparr>] \<and>
   highestTop smallDie (cloneMesh dieTemplate \<lparr>vx = 5, vy = 0, vz = 5\<rparr> identityQuat pair)
     (boxSize smallDie (objects (cloneMesh dieTemplate \<lparr>vx = 5, vy = 0, vz = 5\<rparr> identityQuat pair) 9))
     \<lparr>vx = 5, vy = 0, vz = 5\<rparr> = 2 \<and>
   vy (snd (snd (spawnDie smallDie \<lparr>vx = 5, vy = 0, vz = 5\<rparr> identityQuat None (0.5, 0.5, 0.5) pair))) =
     2 + 0.6 / 2 + 0.02"
proof -
  have t: "diceTemplate readyStage = Some dieTemplate" and e: "diceObjects readyStage = []"
    and st: "stageTopY readyStage = 2" by simp_all
  have h: "\<forall>d \<in> set (diceObjects readyStage).
           \<not> horizDist (cloneMesh dieTemplate origin identityQuat readyStage) origin d
               < horizRadius (boxSize smallDie
                   (objects (cloneMesh dieTemplate origin identityQuat readyStage) (next_ref readyStage)))"
    by simp
  have r: "next_ref readyStage = 5" "Suc 5 = 6" by simp_all
  note W = spawn_height_without_neighbours [OF t h, where vel = None and rnd = "(0.5, 0.5, 0.5)",
      unfolded Let_def r]
  from W have a: "fst (snd (spawnDie smallDie origin identityQuat None (0.5, 0.5, 0.5) readyStage)) = Some (5, 6)"
    by blast
  from W have b: "6 \<in> set (world_bodies (fst (spawnDie smallDie origin identityQuat None (0.5, 0.5, 0.5) readyStage)))"
    by blast
  from W have c: "5 \<in> set (scene_children (fst (spawnDie smallDie origin identityQuat None (0.5, 0.5, 0.5) readyStage)))"
    by blast
  have y: "vy (snd (snd (spawnDie smallDie origin identityQuat None (0.5, 0.5, 0.5) readyStage))) =
     2 + 0.6 / 2 + 0.02"
    by (simp only: spawn_readyStage) simp
  have t2: "diceTemplate pair = Some dieTemplate" by simp
  have d2: "diceObjects pair = [\<lparr>mesh = 5, body = 6, born = 0, halfHeight = 0.3\<rparr>,
                       \<lparr>mesh = 7, body = 8, born = 0, halfHeight = 0.3\<rparr>]"
    by simp
  have h2: "\<forall>d \<in> set (diceObjects pair).
           \<not> horizDist (cloneMesh dieTemplate \<lparr>vx = 5, vy = 0, vz = 5\<rparr> identityQuat pair)
                 \<lparr>vx = 5, vy = 0, vz = 5\<rparr> d
               < horizRadius (boxSize smallDie
                   (objects (cloneMesh dieTemplate \<lparr>vx = 5, vy = 0, vz = 5\<rparr> identityQuat pair)
                      (next_ref pair)))"
    by (rule far_pair [OF radius_smallDie_value])
  have r2: "next_ref pair = 9" "stageTopY pair = 2" by simp_all
  have z: "boxSize smallDie x = \<lparr>vx = 0.6, vy = 0.6, vz = 0.6\<rparr>" for x by simp
  note V = spawn_height_without_neighbours [OF t2 h2, where vel = None and rnd = "(0.5, 0.5, 0.5)",
      unfolded Let_def r2]
  from V have f2: "highestTop smallDie (cloneMesh dieTemplate \<lparr>vx = 5, vy = 0, vz = 5\<rparr> identityQuat pair)
     (boxSize smallDie (objects (cloneMesh dieTemplate \<lparr>vx = 5, vy = 0, vz = 5\<rparr> identityQuat pair) 9))
     \<lparr>vx = 5, vy = 0, vz = 5\<rparr> = 2"
    by blast
  from V have "vy (snd (snd (spawnDie smallDie \<lparr>vx = 5, vy = 0, vz = 5\<rparr> identityQuat None (0.5, 0.5, 0.5) pair))) =
     max (vy \<lparr>vx = 5, vy = 0, vz = 5\<rparr>)
         (2 + vy (boxSize smallDie (objects (cloneMesh dieTemplate \<lparr>vx = 5, vy = 0, vz = 5\<rparr> identityQuat pair) 9)) / 2 + 0.02)"
    by (simp only:)
  then have y2: "vy (snd (snd (spawnDie smallDie \<lparr>vx = 5, vy = 0, vz = 5\<rparr> identityQuat None (0.5, 0.5, 0.5) pair))) =
     2 + 0.6 / 2 + 0.02"
    by (simp only: z) simp
  show ?thesis
    by (intro conjI;
        (rule t e st floor_readyStage spawn_readyStage y a b c d2 f2 y2))
qed

text \<open>
  The claim as stated fails on the roll button's own request: with the stage top at 2.0,
  no dice and a half-height of 0.3, the handler asks for Y = 2.0 + 0.3 + 1.5 = 3.8 and
  the die starts there, not at 2.0 + 0.3 + 0.02; a request for Y = 100 starts at 100.
  The body the call returns has fallen for six sub-steps and is at about 3.786.
\<close>

theorem roll_button_spawn_height_counterexample:
  "diceTemplate readyStage = Some dieTemplate \<and> diceObjects readyStage = [] \<and>
   stageTopY readyStage = 2 \<and>
   dropPos dieTemplate camera down readyStage = \<lparr>vx = 0, vy = 3.8, vz = 0\<rparr> \<and>
   body_position (bodies (fst (placeBody smallDie 5 (dropPos dieTemplate camera down readyStage)
       identityQuat None (0.5, 0.5, 0.5)
       (cloneMesh dieTemplate (dropPos dieTemplate camera down readyStage) identityQuat readyStage))) 6)
     = \<lparr>vx = 0, vy = 3.8, vz = 0\<rparr> \<and>
   vy (snd (snd (spawnDie smallDie (dropPos dieTemplate camera down readyStage)
       identityQuat None (0.5, 0.5, 0.5) readyStage))) \<noteq> 2 + 0.6 / 2 + 0.02 \<and>
   vy (snd (snd (spawnDie smallDie \<lparr>vx = 0, vy = 100, vz = 0\<rparr>
       identityQuat None (0.5, 0.5, 0.5) readyStage))) = 100 \<and>
   6 \<in> set (world_bodies (fst (spawnDie smallDie (dropPos dieTemplate camera down readyStage)
       identityQuat None (0.5, 0.5, 0.5) readyStage))) \<and>
   body_position (bodies (fst (spawnDie smallDie (dropPos dieTemplate camera down readyStage)
       identityQuat None (0.5, 0.5, 0.5) readyStage)) 6) = \<lparr>vx = 0, vy = 3.8 - 3437 / 240000, vz = 0\<rparr> \<and>
   vy (body_position (bodies (fst (spawnDie smallDie (dropPos dieTemplate camera down readyStage)
       identityQuat None (0.5, 0.5, 0.5) readyStage)) 6)) \<noteq> 2 + 0.6 / 2 + 0.02"
proof -
  have t: "diceTemplate readyStage = Some dieTemplate" by simp
  have w: "6 \<in> set (world_bodies (fst (spawnDie smallDie (dropPos dieTemplate camera down readyStage)
       identityQuat None (0.5, 0.5, 0.5) readyStage)))"
    by (simp add: spawnDie_world [OF t] addBody_def)
  show ?thesis
    by (simp only: spawn_roll_button w)
       (simp add: dropPos_readyStage spawnDie_returns floor_readyStage minSafeY_def)
qed

section \<open>The frame loop copies bodies onto visuals\<close>

lemma syncDice_other: "m \<notin> mesh ` set ds \<Longrightarrow> syncDice ds B V m = V m"
  by (induction ds arbitrary: V) auto

lemma syncDice_copies:
  "distinct (map mesh ds) \<Longrightarrow> d \<in> set ds \<Longrightarrow>
     position (syncDice ds B V (mesh d)) = body_position (B (body d)) \<and>
     quaternion (syncDice ds B V (mesh d)) = body_quaternion (B (body d))"
proof (induction ds arbitrary: V)
  case Nil
  then show ?case by simp
next
  case (Cons e ds)
  show ?case
  proof (cases "d = e")
    case True
    then show ?thesis using Cons.prems by (simp add: syncDice_other)
  next
    case False
    then show ?thesis using Cons by auto
  qed
qed

lemma animate_fields [simp]:
  "diceObjects (animate L delta s) = diceObjects s"
  "world_bodies (animate L delta s) = world_bodies s"
  "scene_children (animate L delta s) = scene_children s"
  "next_ref (animate L delta s) = next_ref s"
  "timeouts (animate L delta s) = timeouts s"
  "now (animate L delta s) = now s"
  "stageTopY (animate L delta s) = stageTopY s"
  "diceTemplate (animate L delta s) = diceTemplate s"
  "console (animate L delta s) = console s"
  by (simp_all add: animate_def syncAll_def Let_def split: outcome.splits)

lemma frames_dice [simp]: "diceObjects (frames L ds s) = diceObjects s"
  by (induction ds arbitrary: s) simp_all

lemma frames_snoc: "frames L (ds @ [delta]) s = animate L delta (frames L ds s)"
  by (induction ds arbitrary: s) simp_all

lemma animate_returned:
  "worldStep L (1 / 60) (min 0.02 delta) 10 (world_bodies s) (bodies s) = Returned h \<Longrightarrow>
     animate L delta s = syncAll (s\<lparr>bodies := h\<rparr>)"
  by (simp add: animate_def Let_def)

lemma smallDie_step:
  "worldStep smallDie f e n bs h = Returned (\<lambda>r. if r \<in> set bs then fall1 f (h r) else h r)"
  by (simp add: freeFall_def)

text \<open>
  C8. Take any number of frames, and one more whose physics step returns. After that
  frame the bodies are what the step produced, and the visual of every live instance
  has the position and the orientation of its body. The copy goes one way:
  \<^verbatim>\<open>syncAll\<close> writes the visuals and leaves every body as it is. No two live
  instances share a visual (which holds in every state the program reaches).
\<close>

theorem visuals_follow_bodies:
  assumes "distinct (map mesh (diceObjects s))"
    and "worldStep L (1 / 60) (min 0.02 delta) 10
           (world_bodies (frames L ds s)) (bodies (frames L ds s)) = Returned h"
  shows "let s' = frames L (ds @ [delta]) s
         in bodies s' = h \<and> diceObjects s' = diceObjects s \<and>
            (\<forall>d \<in> set (diceObjects s').
               position (objects s' (mesh d)) = body_position (bodies s' (body d)) \<and>
               quaternion (objects s' (mesh d)) = body_quaternion (bodies s' (body d))) \<and>
            bodies (syncAll s') = bodies s'"
  using assms syncDice_copies [of "diceObjects s" _ h "objects (frames L ds s)"]
  by (simp add: Let_def frames_snoc animate_returned syncAll_def)

theorem visuals_follow_bodies_witness:
  "distinct (map mesh (diceObjects oneDie)) \<and>
   diceObjects (frames smallDie [0.016, 0.02] oneDie) =
     [\<lparr>mesh = 5, body = 6, born = 0, halfHeight = 0.3\<rparr>] \<and>
   position (objects (frames smallDie [0.016, 0.02] oneDie) 5) =
     body_position (bodies (frames smallDie [0.016, 0.02] oneDie) 6) \<and>
   quaternion (objects (frames smallDie [0.016, 0.02] oneDie) 5) =
     body_quaternion (bodies (frames smallDie [0.016, 0.02] oneDie) 6)"
proof -
  have d: "diceObjects oneDie = [\<lparr>mesh = 5, body = 6, born = 0, halfHeight = 0.3\<rparr>]"
    by (simp add: oneDie_def)
  have m: "distinct (map mesh (diceObjects oneDie))"
    by (simp add: d)
  have w: "worldStep smallDie (1 / 60) (min 0.02 0.02) 10
           (world_bodies (frames smallDie [0.016] oneDie)) (bodies (frames smallDie [0.016] oneDie))
         = Returned (\<lambda>r. if r \<in> set (world_bodies (frames smallDie [0.016] oneDie))
                          then fall1 (1 / 60) (bodies (frames smallDie [0.016] oneDie) r)
                          else bodies (frames smallDie [0.016] oneDie) r)"
    by (rule smallDie_step)
  have a: "[0.016, 0.02] = [0.016] @ [0.02 :: real]" by simp
  from visuals_follow_bodies [OF m w] show ?thesis
    unfolding a by (simp add: Let_def m d del: append.simps frames.simps)
qed

section \<open>Building the stage\<close>

lemma buildCollider_cases:
  "buildCollider L n s =
     (case collider L n of
        Some b \<Rightarrow> s\<lparr>bodies := (bodies s)(next_ref s := b),
                    world_bodies := addBody (next_ref s) (world_bodies s),
                    next_ref := Suc (next_ref s)\<rparr>
      | None \<Rightarrow> if fails L n then s\<lparr>console := console s @ [trimeshWarning]\<rparr> else s)"
  by (simp add: buildCollider_def collider_def fails_def split: option.splits prod.splits)

lemma collider_fails: "collider L n = Some b \<Longrightarrow> \<not> fails L n"
  by (auto simp: collider_def fails_def split: option.splits prod.splits if_splits)

lemma addBody_fresh: "\<forall>b \<in> set bs. b < k \<Longrightarrow> addBody k bs = bs @ [k]"
  by (auto simp: addBody_def)

lemma buildColliders_frame [simp]:
  "diceObjects (buildColliders L ns s) = diceObjects s"
  "scene_children (buildColliders L ns s) = scene_children s"
  "objects (buildColliders L ns s) = objects s"
  "timeouts (buildColliders L ns s) = timeouts s"
  "now (buildColliders L ns s) = now s"
  "stageTopY (buildColliders L ns s) = stageTopY s"
  "diceTemplate (buildColliders L ns s) = diceTemplate s"
  by (induction ns arbitrary: s; simp add: buildCollider_cases split: option.splits)+

lemma buildColliders_console:
  "console (buildColliders L ns s) =
     console s @ replicate (length (filter (fails L) ns)) trimeshWarning"
proof (induction ns arbitrary: s)
  case Nil
  show ?case by simp
next
  case (Cons n ns)
  show ?case
    by (cases "collider L n")
       (simp_all add: Cons.IH buildCollider_cases collider_fails replicate_app_Cons_same)
qed

lemma buildColliders_next:
  "next_ref (buildColliders L ns s) = next_ref s + length (List.map_filter (collider L) ns)"
proof (induction ns arbitrary: s)
  case Nil
  show ?case by (simp add: List.map_filter_simps)
next
  case (Cons n ns)
  show ?case
    by (cases "collider L n") (simp_all add: Cons.IH buildCollider_cases List.map_filter_simps)
qed

lemma buildColliders_old:
  "r < next_ref s \<Longrightarrow> bodies (buildColliders L ns s) r = bodies s r"
proof (induction ns arbitrary: s)
  case Nil
  show ?case by simp
next
  case (Cons n ns)
  then show ?case
    by (cases "collider L n") (simp_all add: buildCollider_cases)
qed

lemma buildCollider_skip:
  "collider L n = None \<Longrightarrow>
     world_bodies (buildCollider L n s) = world_bodies s \<and>
     next_ref (buildCollider L n s) = next_ref s \<and>
     bodies (buildCollider L n s) = bodies s"
  by (simp add: buildCollider_cases)

lemma buildColliders_world:
  "\<forall>b \<in> set (world_bodies s). b < next_ref s \<Longrightarrow>
     world_bodies (buildColliders L ns s) =
       world_bodies s @ [next_ref s ..< next_ref s + length (List.map_filter (collider L) ns)] \<and>
     map (bodies (buildColliders L ns s))
       [next_ref s ..< next_ref s + length (List.map_filter (collider L) ns)] =
       List.map_filter (collider L) ns"
proof (induction ns arbitrary: s)
  case Nil
  show ?case by (simp add: List.map_filter_simps)
next
  case (Cons n ns)
  show ?case
  proof (cases "collider L n")
    case None
    then show ?thesis
      using Cons.IH [of "buildCollider L n s"] Cons.prems buildCollider_skip [OF None, of s]
      by (simp add: List.map_filter_simps)
  next
    case (Some b)
    let ?s = "s\<lparr>bodies := (bodies s)(next_ref s := b),
                  world_bodies := addBody (next_ref s) (world_bodies s),
                  next_ref := Suc (next_ref s)\<rparr>"
    let ?k = "length (List.map_filter (collider L) ns)"
    have s1: "buildCollider L n s = ?s"
      using Some by (simp add: buildCollider_cases)
    have w: "world_bodies ?s = world_bodies s @ [next_ref s]"
      using Cons.prems by (simp add: addBody_fresh)
    then have "\<forall>b \<in> set (world_bodies ?s). b < next_ref ?s"
      using Cons.prems by auto
    from Cons.IH [OF this]
    have ih: "world_bodies (buildColliders L ns ?s) =
                world_bodies ?s @ [Suc (next_ref s) ..< Suc (next_ref s) + ?k]"
      and ib: "map (bodies (buildColliders L ns ?s)) [Suc (next_ref s) ..< Suc (next_ref s) + ?k] =
                List.map_filter (collider L) ns"
      by simp_all
    have old: "bodies (buildColliders L ns ?s) (next_ref s) = b"
      using buildColliders_old [of "next_ref s" ?s L ns] by simp
    have A: "buildColliders L (n # ns) s = buildColliders L ns ?s"
      by (simp add: s1)
    have M: "List.map_filter (collider L) (n # ns) = b # List.map_filter (collider L) ns"
      using Some by (simp add: List.map_filter_simps)
    have U: "[next_ref s ..< next_ref s + length (b # List.map_filter (collider L) ns)] =
               next_ref s # [Suc (next_ref s) ..< Suc (next_ref s) + ?k]"
      by (simp add: upt_rec)
    have W: "world_bodies (buildColliders L ns ?s) =
               world_bodies s @ next_ref s # [Suc (next_ref s) ..< Suc (next_ref s) + ?k]"
      by (simp only: ih w append_assoc append.simps)
    show ?thesis
      by (simp only: A M U W ib old list.map simp_thms)
  qed
qed

lemma plane_normal_up:
  "planeNormal (staticBody Plane p (setFromEuler (- pi / 2) 0 0)) = \<lparr>vx = 0, vy = 1, vz = 0\<rparr>"
proof -
  have h: "- pi / 2 / 2 = - (pi / 4)" by simp
  have s: "sin (pi / 4) * sin (pi / 4) = 1 / 2"
    by (simp add: sin_45)
  have c: "cos (pi / 4) * sin (pi / 4) = 1 / 2"
    by (simp add: sin_45 cos_45)
  show ?thesis
    using s c
    by (simp add: planeNormal_def staticBody_def setFromEuler_def rotate_def cross_def Let_def h)
qed


lemma addGroundPlane_fields [simp]:
  "bodies (addGroundPlane s) = (bodies s)(next_ref s :=
      staticBody Plane \<lparr>vx = 0, vy = stageTopY s, vz = 0\<rparr> (setFromEuler (- pi / 2) 0 0))"
  "world_bodies (addGroundPlane s) = addBody (next_ref s) (world_bodies s)"
  "next_ref (addGroundPlane s) = Suc (next_ref s)"
  "stageTopY (addGroundPlane s) = stageTopY s"
  "console (addGroundPlane s) = console s"
  "diceObjects (addGroundPlane s) = diceObjects s"
  "scene_children (addGroundPlane s) = scene_children s"
  "objects (addGroundPlane s) = objects s"
  "timeouts (addGroundPlane s) = timeouts s"
  "now (addGroundPlane s) = now s"
  "diceTemplate (addGroundPlane s) = diceTemplate s"
  by (simp_all add: addGroundPlane_def)

text \<open>The state in which \<^verbatim>\<open>loadStage\<close> starts the per-mesh pass: the ground plane
  is in the world already.\<close>

lemma loadStage_split:
  "loadStage L target a s =
     say Log ''Stage loaded and static bodies created''
       (buildColliders L (nodes a)
          (addGroundPlane
             ((if shadowFits a
               then (\<lambda>x. x\<lparr>scene_children := scene_add target (scene_children x)\<rparr>)
               else say Warn ''Could not adjust shadow camera:'')
                (say Log ''Stage top Y:''
                   (s\<lparr>objects := (objects s)(next_ref s := root a),
                      scene_children := scene_add (next_ref s) (scene_children s),
                      next_ref := Suc (next_ref s),
                      stageTopY := (case boxMaxY a of None \<Rightarrow> 0 | Some y \<Rightarrow> y)\<rparr>)))))"
  by (simp add: loadStage_def Let_def say_def)

lemma loadStage_result:
  assumes "\<forall>b \<in> set (world_bodies s). b < next_ref s"
  shows "stageTopY (loadStage L target a s) = (case boxMaxY a of None \<Rightarrow> 0 | Some y \<Rightarrow> y)"
    and "world_bodies (loadStage L target a s) =
           world_bodies s @ Suc (next_ref s) #
             [Suc (Suc (next_ref s)) ..<
                Suc (Suc (next_ref s)) + length (List.map_filter (collider L) (nodes a))]"
    and "bodies (loadStage L target a s) (Suc (next_ref s)) =
           staticBody Plane \<lparr>vx = 0, vy = (case boxMaxY a of None \<Rightarrow> 0 | Some y \<Rightarrow> y), vz = 0\<rparr>
             (setFromEuler (- pi / 2) 0 0)"
    and "map (bodies (loadStage L target a s))
           [Suc (Suc (next_ref s)) ..<
              Suc (Suc (next_ref s)) + length (List.map_filter (collider L) (nodes a))] =
           List.map_filter (collider L) (nodes a)"
    and "console (loadStage L target a s) =
           console s @ (Log, ''Stage top Y:'') #
             (if shadowFits a then [] else [(Warn, ''Could not adjust shadow camera:'')]) @
             replicate (length (filter (fails L) (nodes a))) trimeshWarning @
             [(Log, ''Stage loaded and static bodies created'')]"
proof -
  let ?s3 = "(if shadowFits a
               then (\<lambda>x. x\<lparr>scene_children := scene_add target (scene_children x)\<rparr>)
               else say Warn ''Could not adjust shadow camera:'')
                (say Log ''Stage top Y:''
                   (s\<lparr>objects := (objects s)(next_ref s := root a),
                      scene_children := scene_add (next_ref s) (scene_children s),
                      next_ref := Suc (next_ref s),
                      stageTopY := (case boxMaxY a of None \<Rightarrow> 0 | Some y \<Rightarrow> y)\<rparr>))"
  let ?s4 = "addGroundPlane ?s3"
  have n3: "next_ref ?s3 = Suc (next_ref s)" and w3: "world_bodies ?s3 = world_bodies s"
    and t3: "stageTopY ?s3 = (case boxMaxY a of None \<Rightarrow> 0 | Some y \<Rightarrow> y)"
    and c3: "console ?s3 = console s @ (Log, ''Stage top Y:'') #
             (if shadowFits a then [] else [(Warn, ''Could not adjust shadow camera:'')])"
    by (simp_all add: say_def)
  have w4: "world_bodies ?s4 = world_bodies s @ [Suc (next_ref s)]"
    using assms by (simp only: addGroundPlane_fields n3 w3) (auto simp: addBody_def)
  have n4: "next_ref ?s4 = Suc (Suc (next_ref s))"
    by (simp only: addGroundPlane_fields n3)
  have b4: "bodies ?s4 (Suc (next_ref s)) =
      staticBody Plane \<lparr>vx = 0, vy = (case boxMaxY a of None \<Rightarrow> 0 | Some y \<Rightarrow> y), vz = 0\<rparr>
             (setFromEuler (- pi / 2) 0 0)"
    by (simp only: addGroundPlane_fields n3 t3 fun_upd_same)
  have f4: "\<forall>b \<in> set (world_bodies ?s4). b < next_ref ?s4"
    using assms by (simp only: w4 n4) (auto simp: less_Suc_eq)
  note bw = buildColliders_world [OF f4, of L "nodes a", unfolded n4 w4]
  show "stageTopY (loadStage L target a s) = (case boxMaxY a of None \<Rightarrow> 0 | Some y \<Rightarrow> y)"
    by (simp only: loadStage_split) (simp add: say_def)
  show "world_bodies (loadStage L target a s) =
           world_bodies s @ Suc (next_ref s) #
             [Suc (Suc (next_ref s)) ..<
                Suc (Suc (next_ref s)) + length (List.map_filter (collider L) (nodes a))]"
    using bw by (simp only: loadStage_split) (simp add: say_def del: upt_Suc)
  show "bodies (loadStage L target a s) (Suc (next_ref s)) =
           staticBody Plane \<lparr>vx = 0, vy = (case boxMaxY a of None \<Rightarrow> 0 | Some y \<Rightarrow> y), vz = 0\<rparr>
             (setFromEuler (- pi / 2) 0 0)"
    using buildColliders_old [of "Suc (next_ref s)" ?s4 L "nodes a"] b4 n4
    by (simp only: loadStage_split) (simp add: say_def)
  show "map (bodies (loadStage L target a s))
           [Suc (Suc (next_ref s)) ..<
              Suc (Suc (next_ref s)) + length (List.map_filter (collider L) (nodes a))] =
           List.map_filter (collider L) (nodes a)"
    using bw by (simp only: loadStage_split) (simp add: say_def del: upt_Suc)
  show "console (loadStage L target a s) =
           console s @ (Log, ''Stage top Y:'') #
             (if shadowFits a then [] else [(Warn, ''Could not adjust shadow camera:'')]) @
             replicate (length (filter (fails L) (nodes a))) trimeshWarning @
             [(Log, ''Stage loaded and static bodies created'')]"
    using c3
    by (simp only: loadStage_split) (simp add: say_def buildColliders_console)
qed

text \<open>
  C9, as amended. During stage construction the ground plane comes first: one static
  body (mass 0) with a plane shape, its normal pointing up, is added to the world at the
  measured stage-top height before any per-mesh shape is attempted. Then every node is
  tried in traversal order: a node whose shape is built adds one static body, a node
  whose shape construction fails adds the warning to the console and nothing else, and
  the nodes after it are still tried.
\<close>

theorem stage_gets_plane_then_colliders:
  assumes "\<forall>b \<in> set (world_bodies s). b < next_ref s"
  shows "let s' = loadStage L target a s;
             k = Suc (next_ref s);
             built = List.map_filter (collider L) (nodes a)
         in stageTopY s' = (case boxMaxY a of None \<Rightarrow> 0 | Some y \<Rightarrow> y) \<and>
            world_bodies s' = world_bodies s @ k # [Suc k ..< Suc k + length built] \<and>
            bodies s' k = staticBody Plane \<lparr>vx = 0, vy = stageTopY s', vz = 0\<rparr>
                            (setFromEuler (- pi / 2) 0 0) \<and>
            mass (bodies s' k) = 0 \<and> shapes (bodies s' k) = [Plane] \<and>
            planeNormal (bodies s' k) = \<lparr>vx = 0, vy = 1, vz = 0\<rparr> \<and>
            map (bodies s') [Suc k ..< Suc k + length built] = built \<and>
            console s' =
              console s @ (Log, ''Stage top Y:'') #
                (if shadowFits a then [] else [(Warn, ''Could not adjust shadow camera:'')]) @
                replicate (length (filter (fails L) (nodes a))) trimeshWarning @
                [(Log, ''Stage loaded and static bodies created'')]"
  using loadStage_result [OF assms, of L target a]
  by (simp only: Let_def plane_normal_up) (simp add: staticBody_def)

lemma staticBody_fields [simp]:
  "mass (staticBody sh p q) = 0" "shapes (staticBody sh p q) = [sh]"
  "body_position (staticBody sh p q) = p" "body_quaternion (staticBody sh p q) = q"
  by (simp_all add: staticBody_def)

lemma triIndices_9: "triIndices 0 9 = [0, 1, 2]"
  by (simp add: triIndices.simps eval_nat_numeral)

lemma table_inputs:
  "colliderInput smallDie groupNode = None"
  "colliderInput smallDie degenerate = Some ([], [])"
  "colliderInput smallDie triangle = Some ([0, 2, 0, 1, 2, 0, 0, 2, 1], [0, 1, 2])"
proof -
  show "colliderInput smallDie groupNode = None"
    by (simp add: colliderInput_def groupNode_def)
  show "colliderInput smallDie degenerate = Some ([], [])"
    by (simp add: colliderInput_def degenerate_def triIndices.simps)
  have l: "length [0, 2, 0, 1, 2, 0, 0, 2, 1 :: real] = 9" by simp
  have w: "toWorld smallDie m [0, 2, 0, 1, 2, 0, 0, 2, 1] = [0, 2, 0, 1, 2, 0, 0, 2, 1]" for m
    by (simp add: smallDie_def)
  show "colliderInput smallDie triangle = Some ([0, 2, 0, 1, 2, 0, 0, 2, 1], [0, 1, 2])"
    unfolding colliderInput_def triangle_def
    by (simp only: node.simps geom.simps option.simps l w triIndices_9 simp_thms if_False)
qed

lemma table_colliders:
  "List.map_filter (collider smallDie) (nodes table) =
     [staticBody (Trimesh [0, 2, 0, 1, 2, 0, 0, 2, 1] [0, 1, 2])
        \<lparr>vx = 0, vy = 0, vz = 0\<rparr> \<lparr>qx = 0, qy = 0, qz = 0, qw = 1\<rparr>]"
  "filter (fails smallDie) (nodes table) = [degenerate]"
  by (simp_all add: table_def List.map_filter_simps collider_def fails_def table_inputs)
     (simp_all add: smallDie_def)

lemma initial_fields [simp]:
  "world_bodies initial = []" "next_ref initial = 3" "console initial = []"
  by (simp_all add: initial_def)

theorem stage_gets_plane_then_colliders_witness:
  "world_bodies initial = [] \<and> next_ref initial = 3 \<and>
   world_bodies (loadStage smallDie 2 table initial) = [4, 5] \<and>
   stageTopY (loadStage smallDie 2 table initial) = 2 \<and>
   bodies (loadStage smallDie 2 table initial) 4 =
     staticBody Plane \<lparr>vx = 0, vy = 2, vz = 0\<rparr> (setFromEuler (- pi / 2) 0 0) \<and>
   planeNormal (bodies (loadStage smallDie 2 table initial) 4) = \<lparr>vx = 0, vy = 1, vz = 0\<rparr> \<and>
   shapes (bodies (loadStage smallDie 2 table initial) 5) =
     [Trimesh [0, 2, 0, 1, 2, 0, 0, 2, 1] [0, 1, 2]] \<and>
   console (loadStage smallDie 2 table initial) =
     [(Log, ''Stage top Y:''), trimeshWarning, (Log, ''Stage loaded and static bodies created'')]"
proof -
  have f: "\<forall>b \<in> set (world_bodies initial). b < next_ref initial" by simp
  have t: "boxMaxY table = Some 2" "shadowFits table" by (simp_all add: table_def)
  have n: "planeNormal (staticBody Plane p (setFromEuler (- (pi / 2)) 0 0)) =
             \<lparr>vx = 0, vy = 1, vz = 0\<rparr>" for p
    using plane_normal_up [of p] by simp
  from stage_gets_plane_then_colliders [OF f, of smallDie 2 table] show ?thesis
    by (simp add: Let_def table_colliders t n)
qed

text \<open>
  The claim as stated puts the plane after the per-mesh shapes. On the three-node stage
  the world holds the plane (reference 4) before the body of the triangle (reference 5):
  the last body added is the trimesh, not the plane.
\<close>

theorem plane_is_added_first_counterexample:
  "world_bodies (loadStage smallDie 2 table initial) = [4, 5] \<and>
   shapes (bodies (loadStage smallDie 2 table initial) 4) = [Plane] \<and>
   shapes (bodies (loadStage smallDie 2 table initial) (last (world_bodies (loadStage smallDie 2 table initial))))
     = [Trimesh [0, 2, 0, 1, 2, 0, 0, 2, 1] [0, 1, 2]] \<and>
   world_bodies (addGroundPlane (initial\<lparr>next_ref := 4, stageTopY := 2\<rparr>)) = [4]"
proof -
  have f: "\<forall>b \<in> set (world_bodies initial). b < next_ref initial" by simp
  have w: "world_bodies (loadStage smallDie 2 table initial) = [4, 5]"
    using loadStage_result(2) [OF f, of smallDie 2 table] by (simp add: table_colliders)
  have p: "shapes (bodies (loadStage smallDie 2 table initial) 4) = [Plane]"
    using loadStage_result(3) [OF f, of smallDie 2 table] by simp
  have m: "shapes (bodies (loadStage smallDie 2 table initial) 5) =
             [Trimesh [0, 2, 0, 1, 2, 0, 0, 2, 1] [0, 1, 2]]"
    using loadStage_result(4) [OF f, of smallDie 2 table]
    by (simp add: table_colliders)
  have g: "world_bodies (addGroundPlane (initial\<lparr>next_ref := 4, stageTopY := 2\<rparr>)) = [4]"
    by (simp add: addBody_def)
  show ?thesis
    by (simp only: w p m g last.simps list.simps if_False if_True simp_thms)
qed

section \<open>Well-formed states\<close>

lemma wf_fields:
  "world_bodies s' = world_bodies s \<Longrightarrow> scene_children s' = scene_children s \<Longrightarrow>
   diceObjects s' = diceObjects s \<Longrightarrow> timeouts s' = timeouts s \<Longrightarrow>
   next_ref s' = next_ref s \<Longrightarrow> wf s' = wf s"
  by (simp add: wf_def)

lemma wf_say [simp]: "wf (say l msg s) = wf s"
  by (rule wf_fields) (simp_all add: say_def)

lemma wf_animate: "wf (animate L delta s) = wf s"
  by (rule wf_fields) simp_all

lemma wf_elapse: "wf (s\<lparr>now := t\<rparr>) = wf s"
  by (rule wf_fields) simp_all

lemma wf_loadDiceTemplate: "wf (loadDiceTemplate L g h m s) = wf s"
  by (rule wf_fields) (simp_all add: loadDiceTemplate_def say_def)

lemma wf_initial: "wf initial"
  by (simp add: wf_def initial_def)

subsection \<open>Clearing\<close>

lemma clearAllDice_fields [simp]:
  "timeouts (clearAllDice s) = timeouts s"
  "next_ref (clearAllDice s) = next_ref s"
  "bodies (clearAllDice s) = bodies s"
  "objects (clearAllDice s) = objects s"
  "now (clearAllDice s) = now s"
  "stageTopY (clearAllDice s) = stageTopY s"
  "diceTemplate (clearAllDice s) = diceTemplate s"
  "console (clearAllDice s) = console s"
  by (subst clearAllDice_frame, simp)+

lemma wf_clearAllDice:
  assumes "wf s"
  shows "wf (clearAllDice s)"
proof -
  have dw: "distinct (world_bodies s)" and ds: "distinct (scene_children s)"
    using assms by (simp_all add: wf_def)
  have sub: "set (world_bodies (clearAllDice s)) \<subseteq> set (world_bodies s)"
       "set (scene_children (clearAllDice s)) \<subseteq> set (scene_children s)"
    by (rule clearAllDice_world_subset, rule clearAllDice_scene_subset)
  have gone: "snd x \<notin> set (world_bodies (clearAllDice s))" if "x \<in> set (timeouts s)" for x
  proof (cases "snd x \<in> body ` set (diceObjects s)")
    case True
    then obtain d where "d \<in> set (diceObjects s)" "snd x = body d" by auto
    then show ?thesis using clearAllDice_absent [of d s] dw by simp
  next
    case False
    then have "snd x \<notin> set (world_bodies s)"
      using assms that by (auto simp: wf_def list_all_iff)
    then show ?thesis using sub by auto
  qed
  show ?thesis
    using assms sub gone clearAllDice_distinct [of s]
    by (auto simp: wf_def list_all_iff clearAllDice_empty)
qed

subsection \<open>Spawning\<close>

lemma scene_add_fresh: "\<forall>m \<in> set cs. m < k \<Longrightarrow> scene_add k cs = cs @ [k]"
  by (auto simp: scene_add_def remove1_idem)

lemma wf_spawnDie:
  assumes "wf s"
  shows "wf (fst (spawnDie L p q vel rnd s))"
proof (cases "diceTemplate s")
  case None
  then show ?thesis using assms by (simp add: spawnDie_unloaded)
next
  case (Some t)
  let ?s = "fst (spawnDie L p q vel rnd s)"
  let ?m = "next_ref s" and ?b = "Suc (next_ref s)"
  have w: "world_bodies ?s = world_bodies s @ [?b]"
    using assms by (simp add: spawnDie_world [OF Some] wf_def list_all_iff) (auto simp: addBody_def)
  have c: "scene_children ?s = scene_children s @ [?m]"
    using assms by (simp add: spawnDie_fields [OF Some] wf_def list_all_iff scene_add_fresh)
  note f = spawnDie_fields(1,3,4) [OF Some, of L p q vel rnd]
  have old: "\<forall>d \<in> set (diceObjects s). mesh d < ?m \<and> body d < ?m"
    and oldw: "\<forall>b \<in> set (world_bodies s). b < ?m"
    and oldc: "\<forall>m \<in> set (scene_children s). m < ?m"
    and oldt: "\<forall>x \<in> set (timeouts s). snd x < ?m"
    using assms by (auto simp: wf_def list_all_iff)
  have 1: "distinct (world_bodies ?s)" using assms oldw by (auto simp: w wf_def)
  have 2: "distinct (scene_children ?s)" using assms oldc by (auto simp: c wf_def)
  have 3: "distinct (map body (diceObjects ?s))" using assms old by (auto simp: f wf_def)
  have 4: "distinct (map mesh (diceObjects ?s))" using assms old by (auto simp: f wf_def)
  have 5: "distinct (map snd (timeouts ?s))" using assms oldt by (auto simp: f wf_def)
  have 6: "list_all (\<lambda>b. b < next_ref ?s) (world_bodies ?s)"
    using oldw by (auto simp: w f list_all_iff less_Suc_eq)
  have 7: "list_all (\<lambda>m. m < next_ref ?s) (scene_children ?s)"
    using oldc by (auto simp: c f list_all_iff less_Suc_eq)
  have 8: "list_all (\<lambda>x. snd x < next_ref ?s) (timeouts ?s)"
    using oldt by (auto simp: f list_all_iff less_Suc_eq)
  have 9: "2 < next_ref ?s" using assms by (simp add: f wf_def)
  have 10: "list_all (\<lambda>d. mesh d < next_ref ?s \<and> body d < next_ref ?s \<and>
                     body d \<in> set (world_bodies ?s) \<and> mesh d \<in> set (scene_children ?s) \<and>
                     (born d + 90000, body d) \<in> set (timeouts ?s)) (diceObjects ?s)"
    using assms old by (auto simp: f w c wf_def list_all_iff less_Suc_eq)
  have 11: "list_all (\<lambda>x. snd x \<in> body ` set (diceObjects ?s) \<or> snd x \<notin> set (world_bodies ?s))
        (timeouts ?s)"
    using assms oldt by (auto simp: f w wf_def list_all_iff)
  show ?thesis
    unfolding wf_def using 1 2 3 4 5 6 7 8 9 10 11 by blast
qed

lemma wf_rollClick: "wf s \<Longrightarrow> wf (rollClick L cam dir j1 j2 rnd s)"
  by (cases "diceTemplate s") (simp_all add: rollClick_def Let_def wf_spawnDie wf_clearAllDice)

lemma wf_keydown: "wf s \<Longrightarrow> wf (keydown k s)"
  by (simp add: keydown_def wf_clearAllDice)

subsection \<open>Loading the stage\<close>

lemma scene_add_set: "set (scene_add m cs) = insert m (set cs)"
  by (auto simp: scene_add_def dest: notin_set_remove1) (metis in_set_remove1)

lemma scene_add_distinct: "distinct cs \<Longrightarrow> distinct (scene_add m cs)"
  by (simp add: scene_add_def)

lemma loadStage_fields:
  "diceObjects (loadStage L target a s) = diceObjects s"
  "timeouts (loadStage L target a s) = timeouts s"
  "scene_children (loadStage L target a s) =
     (if shadowFits a then scene_add target (scene_add (next_ref s) (scene_children s))
      else scene_add (next_ref s) (scene_children s))"
  "next_ref (loadStage L target a s) =
     Suc (Suc (next_ref s)) + length (List.map_filter (collider L) (nodes a))"
  by (simp_all add: loadStage_split say_def buildColliders_next)

lemma wf_loadStage:
  assumes "wf s" and "target < next_ref s"
  shows "wf (loadStage L target a s)"
proof -
  let ?s = "loadStage L target a s"
  let ?k = "length (List.map_filter (collider L) (nodes a))"
  have oldw: "\<forall>b \<in> set (world_bodies s). b < next_ref s"
    and oldc: "\<forall>m \<in> set (scene_children s). m < next_ref s"
    using assms by (auto simp: wf_def list_all_iff)
  note w = loadStage_result(2) [OF oldw, of L target a]
  note f = loadStage_fields [of L target a s]
  have sw: "set (world_bodies ?s) =
              set (world_bodies s) \<union> {Suc (next_ref s) ..< Suc (Suc (next_ref s)) + ?k}"
    by (simp only: w) auto
  have sc: "set (scene_children ?s) \<subseteq> insert target (insert (next_ref s) (set (scene_children s)))"
       "set (scene_children s) \<subseteq> set (scene_children ?s)"
    by (auto simp: f scene_add_set)
  have 1: "distinct (world_bodies ?s)"
    using assms oldw by (simp only: w) (auto simp: wf_def)
  have 2: "distinct (scene_children ?s)"
    using assms by (simp add: f scene_add_distinct wf_def)
  have 6: "list_all (\<lambda>b. b < next_ref ?s) (world_bodies ?s)"
    using oldw by (auto simp: list_all_iff sw f)
  have "m < Suc (next_ref s)" if "m \<in> set (scene_children ?s)" for m
    using subsetD [OF sc(1) that] oldc assms(2) by (auto simp: less_Suc_eq)
  then have 7: "list_all (\<lambda>m. m < next_ref ?s) (scene_children ?s)"
    unfolding list_all_iff f(4) by fastforce
  have grow: "x < next_ref ?s" if "x < next_ref s" for x
    using that by (simp add: f(4))
  have 8: "list_all (\<lambda>x. snd x < next_ref ?s) (timeouts ?s)"
    using assms(1) grow by (simp add: wf_def list_all_iff f(2))
  have old: "\<forall>d \<in> set (diceObjects s). mesh d < next_ref s \<and> body d < next_ref s \<and>
                     body d \<in> set (world_bodies s) \<and> mesh d \<in> set (scene_children s) \<and>
                     (born d + 90000, body d) \<in> set (timeouts s)"
    using assms(1) by (simp add: wf_def list_all_iff)
  have 10: "list_all (\<lambda>d. mesh d < next_ref ?s \<and> body d < next_ref ?s \<and>
                     body d \<in> set (world_bodies ?s) \<and> mesh d \<in> set (scene_children ?s) \<and>
                     (born d + 90000, body d) \<in> set (timeouts ?s)) (diceObjects ?s)"
    unfolding list_all_iff f(1,2) sw
  proof
    fix d assume "d \<in> set (diceObjects s)"
    with old have d: "mesh d < next_ref s" "body d < next_ref s"
      "body d \<in> set (world_bodies s)" "mesh d \<in> set (scene_children s)"
      "(born d + 90000, body d) \<in> set (timeouts s)"
      by auto
    show "mesh d < next_ref ?s \<and> body d < next_ref ?s \<and>
          body d \<in> set (world_bodies s) \<union> {Suc (next_ref s) ..< Suc (Suc (next_ref s)) + ?k} \<and>
          mesh d \<in> set (scene_children ?s) \<and> (born d + 90000, body d) \<in> set (timeouts s)"
      using d grow sc(2) by blast
  qed
  have 11: "list_all (\<lambda>x. snd x \<in> body ` set (diceObjects ?s) \<or> snd x \<notin> set (world_bodies ?s))
        (timeouts ?s)"
    using assms(1) by (auto simp: wf_def list_all_iff sw f(1,2))
  have 345: "distinct (map body (diceObjects ?s))" "distinct (map mesh (diceObjects ?s))"
       "distinct (map snd (timeouts ?s))" "2 < next_ref ?s"
    using assms(1) by (simp_all add: wf_def f)
  show ?thesis
    unfolding wf_def using 1 2 345 6 7 8 10 11 by blast
qed

subsection \<open>The timed removal\<close>

lemma findIndex_None: "findIndex b ds = None \<longleftrightarrow> b \<notin> body ` set ds"
  by (induction ds) auto

lemma findIndex_Some:
  "findIndex b ds = Some i \<Longrightarrow> i < length ds \<and> body (ds ! i) = b"
proof (induction ds arbitrary: i)
  case Nil
  then show ?case by simp
next
  case (Cons d ds)
  then show ?case by (auto split: if_splits)
qed

lemma splice1_set: "set (splice1 i xs) \<subseteq> set xs"
  by (auto simp: splice1_def dest: in_set_takeD in_set_dropD)

lemma splice1_id: "length xs \<le> i \<Longrightarrow> splice1 i xs = xs"
  by (simp add: splice1_def)

lemma splice1_distinct_map:
  assumes "distinct (map f xs)"
  shows "distinct (map f (splice1 i xs))"
proof -
  have "map f xs = map f (take i xs) @ map f (drop i xs)"
    by (simp flip: map_append)
  then have "distinct (map f (take i xs) @ map f (drop i xs))"
    using assms by simp
  moreover have "set (map f (drop (Suc i) xs)) \<subseteq> set (map f (drop i xs))"
    by (metis drop_map set_drop_subset_set_drop le_add2 plus_1_eq_Suc)
  moreover have "distinct (map f (drop (Suc i) xs))"
    using assms by (metis distinct_drop drop_map)
  ultimately show ?thesis
    by (auto simp: splice1_def)
qed

lemma splice1_keeps:
  assumes "distinct (map f xs)" and "i < length xs" and "x \<in> set xs" and "f x \<noteq> f (xs ! i)"
  shows "x \<in> set (splice1 i xs)"
proof -
  have "xs = take i xs @ xs ! i # drop (Suc i) xs"
    using assms(2) by (rule id_take_nth_drop)
  then have "set xs = set (take i xs) \<union> {xs ! i} \<union> set (drop (Suc i) xs)"
    by (metis Un_insert_right list.simps(15) set_append sup_bot.right_neutral Un_assoc insert_is_Un)
  then show ?thesis
    using assms(3,4) by (auto simp: splice1_def)
qed

lemma splice1_drops:
  assumes "distinct (map f xs)" and "i < length xs"
  shows "f (xs ! i) \<notin> f ` set (splice1 i xs)"
proof -
  have xs: "xs = take i xs @ xs ! i # drop (Suc i) xs"
    using assms(2) by (rule id_take_nth_drop)
  have "distinct (map f (take i xs @ xs ! i # drop (Suc i) xs))"
    using assms(1) xs by simp
  then show ?thesis
    by (auto simp: splice1_def)
qed

lemma timeoutCallback_dead:
  "b \<notin> body ` set (diceObjects s) \<Longrightarrow> timeoutCallback b s = s"
  by (simp add: timeoutCallback_def findIndex_None [symmetric])

lemma timeoutCallback_live:
  assumes "b \<in> body ` set (diceObjects s)"
  obtains idx where "idx < length (diceObjects s)" "body (diceObjects s ! idx) = b"
    "timeoutCallback b s =
       s\<lparr>world_bodies := removeBody b (world_bodies s),
         scene_children := scene_remove (mesh (diceObjects s ! idx)) (scene_children s),
         diceObjects := splice1 idx (diceObjects s)\<rparr>"
proof -
  from assms obtain idx where f: "findIndex b (diceObjects s) = Some idx"
    using findIndex_None [of b "diceObjects s"] by (cases "findIndex b (diceObjects s)") auto
  have "timeoutCallback b s =
       s\<lparr>world_bodies := removeBody b (world_bodies s),
         scene_children := scene_remove (mesh (diceObjects s ! idx)) (scene_children s),
         diceObjects := splice1 idx (diceObjects s)\<rparr>"
    by (simp add: timeoutCallback_def f)
  with findIndex_Some [OF f] show ?thesis
    by (intro that [of idx]) simp_all
qed

lemma same_key_same_due:
  "distinct (map snd xs) \<Longrightarrow> (a, k) \<in> set xs \<Longrightarrow> (a', k) \<in> set xs \<Longrightarrow> a = a'"
  by (induction xs) (auto simp: image_iff)

lemma timeoutCallback_frame [simp]:
  "timeouts (timeoutCallback b s) = timeouts s"
  "next_ref (timeoutCallback b s) = next_ref s"
  "bodies (timeoutCallback b s) = bodies s"
  "objects (timeoutCallback b s) = objects s"
  "now (timeoutCallback b s) = now s"
  by (simp_all add: timeoutCallback_def split: option.splits)

lemma timeoutCallback_parts:
  assumes "wf s" and "b \<in> snd ` set (timeouts s)"
  shows "distinct (world_bodies (timeoutCallback b s)) \<and>
    distinct (scene_children (timeoutCallback b s)) \<and>
    distinct (map body (diceObjects (timeoutCallback b s))) \<and>
    distinct (map mesh (diceObjects (timeoutCallback b s))) \<and>
    set (diceObjects (timeoutCallback b s)) = {d \<in> set (diceObjects s). body d \<noteq> b} \<and>
    (\<forall>d \<in> set (diceObjects s).
            (body d = b \<longrightarrow> mesh d \<notin> set (scene_children (timeoutCallback b s))) \<and>
            (body d \<noteq> b \<longrightarrow> mesh d \<in> set (scene_children (timeoutCallback b s)))) \<and>
    set (scene_children (timeoutCallback b s)) \<subseteq> set (scene_children s) \<and>
    set (world_bodies (timeoutCallback b s)) = set (world_bodies s) - {b}"
proof -
  have dw: "distinct (world_bodies s)" and dc: "distinct (scene_children s)"
    and db: "distinct (map body (diceObjects s))" and dm: "distinct (map mesh (diceObjects s))"
    and live: "\<forall>d \<in> set (diceObjects s). body d \<in> set (world_bodies s) \<and> mesh d \<in> set (scene_children s)"
    and rest: "\<forall>x \<in> set (timeouts s). snd x \<in> body ` set (diceObjects s) \<or> snd x \<notin> set (world_bodies s)"
    using assms(1) by (auto simp: wf_def list_all_iff)
  consider (dead) "b \<notin> body ` set (diceObjects s)" | (alive) "b \<in> body ` set (diceObjects s)"
    by blast
  then show ?thesis
  proof cases
    case dead
    then have "b \<notin> set (world_bodies s)" using rest assms(2) by auto
    then show ?thesis
      using dead dw dc db dm live by (auto simp: timeoutCallback_dead)
  next
    case alive
    then obtain idx where i: "idx < length (diceObjects s)" "body (diceObjects s ! idx) = b"
      and e: "timeoutCallback b s =
       s\<lparr>world_bodies := removeBody b (world_bodies s),
         scene_children := scene_remove (mesh (diceObjects s ! idx)) (scene_children s),
         diceObjects := splice1 idx (diceObjects s)\<rparr>"
      by (rule timeoutCallback_live)
    let ?d0 = "diceObjects s ! idx"
    have d0: "?d0 \<in> set (diceObjects s)" using i(1) by simp
    have keep: "d \<in> set (splice1 idx (diceObjects s))"
      if "d \<in> set (diceObjects s)" "body d \<noteq> b" for d
      using splice1_keeps [OF db i(1) that(1)] that(2) i(2) by simp
    have drop: "body d \<noteq> b" "mesh d \<noteq> mesh ?d0" if "d \<in> set (splice1 idx (diceObjects s))" for d
      using splice1_drops [OF db i(1)] splice1_drops [OF dm i(1)] that i(2)
      by (metis imageI)+
    have same: "d = ?d0" if "d \<in> set (diceObjects s)" "body d = b" for d
      using that d0 i(2) db by (metis distinct_map inj_onD)
    have s1: "set (diceObjects (timeoutCallback b s)) = {d \<in> set (diceObjects s). body d \<noteq> b}"
      using keep drop(1) splice1_set [of idx "diceObjects s"] by (auto simp: e)
    have s2: "\<forall>d \<in> set (diceObjects s).
            (body d = b \<longrightarrow> mesh d \<notin> set (scene_children (timeoutCallback b s))) \<and>
            (body d \<noteq> b \<longrightarrow> mesh d \<in> set (scene_children (timeoutCallback b s)))"
    proof
      fix d assume d: "d \<in> set (diceObjects s)"
      show "(body d = b \<longrightarrow> mesh d \<notin> set (scene_children (timeoutCallback b s))) \<and>
            (body d \<noteq> b \<longrightarrow> mesh d \<in> set (scene_children (timeoutCallback b s)))"
      proof (cases "body d = b")
        case True
        then show ?thesis using same [OF d] dc by (simp add: e scene_remove_def)
      next
        case False
        then have "mesh d \<noteq> mesh ?d0" using drop(2) keep [OF d] by blast
        moreover have "mesh d \<in> set (scene_children s)" using live d by blast
        ultimately show ?thesis using False
          by (simp add: e scene_remove_def)
      qed
    qed
    have s3: "set (world_bodies (timeoutCallback b s)) = set (world_bodies s) - {b}"
      using dw by (simp add: e removeBody_def)
    have s4: "set (scene_children (timeoutCallback b s)) \<subseteq> set (scene_children s)"
      using set_remove1_subset [of "mesh ?d0" "scene_children s"] by (simp add: e scene_remove_def)
    have s5: "distinct (world_bodies (timeoutCallback b s))"
      "distinct (scene_children (timeoutCallback b s))"
      "distinct (map body (diceObjects (timeoutCallback b s)))"
      "distinct (map mesh (diceObjects (timeoutCallback b s)))"
      using dw dc db dm by (simp_all add: e removeBody_def scene_remove_def splice1_distinct_map)
    show ?thesis
      using s1 s2 s3 s4 s5 by blast
  qed
qed


lemma fireTimeout_idle:
  "\<not> (i < length (timeouts s) \<and> fst (timeouts s ! i) \<le> now s) \<Longrightarrow> fireTimeout i s = s"
  unfolding fireTimeout_def by (rule if_not_P)

lemma fireTimeout_due:
  "i < length (timeouts s) \<Longrightarrow> fst (timeouts s ! i) \<le> now s \<Longrightarrow>
     fireTimeout i s = (timeoutCallback (snd (timeouts s ! i)) s)\<lparr>timeouts := splice1 i (timeouts s)\<rparr>"
  by (simp add: fireTimeout_def)

lemma wf_fireTimeout:
  assumes "wf s"
  shows "wf (fireTimeout i s)"
proof (cases "i < length (timeouts s) \<and> fst (timeouts s ! i) \<le> now s")
  case False
  then show ?thesis using assms by (simp add: fireTimeout_idle)
next
  case True
  let ?b = "snd (timeouts s ! i)"
  let ?c = "timeoutCallback ?b s"
  let ?s = "fireTimeout i s"
  have e: "?s = ?c\<lparr>timeouts := splice1 i (timeouts s)\<rparr>"
    using True by (simp add: fireTimeout_due)
  have bt: "?b \<in> snd ` set (timeouts s)" using True by (simp add: image_iff) force
  note p = timeoutCallback_parts [OF assms bt]
  have dt: "distinct (map snd (timeouts s))"
    and old: "\<forall>d \<in> set (diceObjects s). mesh d < next_ref s \<and> body d < next_ref s \<and>
                     body d \<in> set (world_bodies s) \<and> mesh d \<in> set (scene_children s) \<and>
                     (born d + 90000, body d) \<in> set (timeouts s)"
    and oldw: "\<forall>b \<in> set (world_bodies s). b < next_ref s"
    and oldc: "\<forall>m \<in> set (scene_children s). m < next_ref s"
    and oldt: "\<forall>x \<in> set (timeouts s). snd x < next_ref s"
    and rest: "\<forall>x \<in> set (timeouts s). snd x \<in> body ` set (diceObjects s) \<or> snd x \<notin> set (world_bodies s)"
    and nr: "2 < next_ref s"
    using assms by (auto simp: wf_def list_all_iff)
  have ts: "set (splice1 i (timeouts s)) \<subseteq> set (timeouts s)" by (rule splice1_set)
  have tk: "x \<in> set (splice1 i (timeouts s))" if "x \<in> set (timeouts s)" "snd x \<noteq> ?b" for x
    using splice1_keeps [OF dt _ that(1)] True that(2) by simp
  have td: "snd x \<noteq> ?b" if "x \<in> set (splice1 i (timeouts s))" for x
    using splice1_drops [OF dt, of i] True that by (metis imageI)
  have 5: "distinct (map snd (timeouts ?s))"
    using dt by (simp add: e splice1_distinct_map)
  have 6: "list_all (\<lambda>b. b < next_ref ?s) (world_bodies ?s)"
    using oldw p by (auto simp: e list_all_iff)
  have 7: "list_all (\<lambda>m. m < next_ref ?s) (scene_children ?s)"
    using oldc p by (auto simp: e list_all_iff)
  have 8: "list_all (\<lambda>x. snd x < next_ref ?s) (timeouts ?s)"
    using oldt ts by (auto simp: e list_all_iff)
  have 10: "list_all (\<lambda>d. mesh d < next_ref ?s \<and> body d < next_ref ?s \<and>
                     body d \<in> set (world_bodies ?s) \<and> mesh d \<in> set (scene_children ?s) \<and>
                     (born d + 90000, body d) \<in> set (timeouts ?s)) (diceObjects ?s)"
    unfolding list_all_iff
  proof
    fix d assume "d \<in> set (diceObjects ?s)"
    then have d: "d \<in> set (diceObjects s)" "body d \<noteq> ?b"
      using p by (auto simp: e)
    then have "(born d + 90000, body d) \<in> set (splice1 i (timeouts s))"
      using old tk [of "(born d + 90000, body d)"] by simp
    moreover have "mesh d \<in> set (scene_children ?c)" "body d \<in> set (world_bodies ?c)"
      using p d old by auto
    ultimately show "mesh d < next_ref ?s \<and> body d < next_ref ?s \<and>
                     body d \<in> set (world_bodies ?s) \<and> mesh d \<in> set (scene_children ?s) \<and>
                     (born d + 90000, body d) \<in> set (timeouts ?s)"
      using old d(1) by (simp add: e)
  qed
  have 11: "list_all (\<lambda>x. snd x \<in> body ` set (diceObjects ?s) \<or> snd x \<notin> set (world_bodies ?s))
        (timeouts ?s)"
    unfolding list_all_iff
  proof
    fix x assume "x \<in> set (timeouts ?s)"
    then have x: "x \<in> set (timeouts s)" "snd x \<noteq> ?b"
      using ts td by (auto simp: e)
    show "snd x \<in> body ` set (diceObjects ?s) \<or> snd x \<notin> set (world_bodies ?s)"
      using rest x p by (auto simp: e)
  qed
  have 1234: "distinct (world_bodies ?s)" "distinct (scene_children ?s)"
    "distinct (map body (diceObjects ?s))" "distinct (map mesh (diceObjects ?s))" "2 < next_ref ?s"
    using p nr by (simp_all add: e)
  show ?thesis
    unfolding wf_def using 1234 5 6 7 8 10 11 by blast
qed

lemma wf_handle: "wf s \<Longrightarrow> wf (handle L e s)"
  by (cases e)
     (simp_all add: wf_loadStage wf_loadDiceTemplate wf_rollClick wf_keydown wf_animate
        wf_elapse wf_fireTimeout wf_def [of s])

lemma wf_run: "wf s \<Longrightarrow> wf (run L es s)"
  by (induction es arbitrary: s) (simp_all add: wf_handle)

lemma reachable_wf: "reachable L s \<Longrightarrow> wf s"
  by (auto simp: reachable_def wf_run wf_initial)

text \<open>What the theorems on clearing, on the frame loop and on the stage ask of a
  state holds in every state the program reaches.\<close>

lemma reachable_lists:
  assumes "reachable L s"
  shows "distinct (world_bodies s)" and "distinct (scene_children s)"
    and "distinct (map mesh (diceObjects s))"
    and "\<forall>b \<in> set (world_bodies s). b < next_ref s"
  using reachable_wf [OF assms] by (simp_all add: wf_def list_all_iff)

lemma fireTimeout_after_clear:
  "fireTimeout i (clearAllDice s) =
     (clearAllDice s)\<lparr>timeouts :=
        (if i < length (timeouts s) \<and> fst (timeouts s ! i) \<le> now s
         then splice1 i (timeouts s) else timeouts s)\<rparr>"
proof -
  have "timeoutCallback b (clearAllDice s) = clearAllDice s" for b
    by (rule timeoutCallback_dead) (simp add: clearAllDice_empty)
  then show ?thesis
    by (simp add: fireTimeout_def)
qed

text \<open>
  C7. \<^verbatim>\<open>spawnDie\<close> hands one callback to \<^verbatim>\<open>setTimeout\<close> with a delay of
  90 000 ms; a pending callback runs once and not before it is due. In every well-formed
  state (every state the program reaches is one), for the pending callback number \<open>i\<close>,
  due at \<open>due\<close> for body \<open>b\<close>:
  \<^item> every live die has its callback pending, due 90 000 ms after the die was born;
  \<^item> before \<open>due\<close> the callback does not run: the state stays as it is;
  \<^item> from \<open>due\<close> on, running it leaves \<open>b\<close> neither live nor in the world nor
    pending again, takes the visual of the die out of the scene together with the body,
    and leaves every other die live, in the world and in the scene;
  \<^item> if the die was removed before (by a clear, say), running the callback removes
    nothing: only the callback itself is gone.
\<close>

theorem timed_removal_once:
  assumes "wf s" and "i < length (timeouts s)" and "timeouts s ! i = (due, b)"
  shows "(diceTemplate s = Some t \<longrightarrow>
            timeouts (fst (spawnDie L p q vel rnd s)) =
              timeouts s @ [(now s + 90000, Suc (next_ref s))] \<and>
            born (last (diceObjects (fst (spawnDie L p q vel rnd s)))) = now s \<and>
            body (last (diceObjects (fst (spawnDie L p q vel rnd s)))) = Suc (next_ref s)) \<and>
         (\<forall>d \<in> set (diceObjects s).
            (born d + 90000, body d) \<in> set (timeouts s) \<and>
            (body d = b \<longrightarrow> due = born d + 90000)) \<and>
         (now s < due \<longrightarrow> fireTimeout i s = s) \<and>
         (due \<le> now s \<longrightarrow>
            b \<notin> body ` set (diceObjects (fireTimeout i s)) \<and>
            b \<notin> set (world_bodies (fireTimeout i s)) \<and>
            b \<notin> snd ` set (timeouts (fireTimeout i s)) \<and>
            (\<forall>d \<in> set (diceObjects s).
               if body d = b
               then d \<notin> set (diceObjects (fireTimeout i s)) \<and>
                    mesh d \<notin> set (scene_children (fireTimeout i s))
               else d \<in> set (diceObjects (fireTimeout i s)) \<and>
                    body d \<in> set (world_bodies (fireTimeout i s)) \<and>
                    mesh d \<in> set (scene_children (fireTimeout i s))) \<and>
            (b \<notin> body ` set (diceObjects s) \<longrightarrow>
               fireTimeout i s = s\<lparr>timeouts := splice1 i (timeouts s)\<rparr>) \<and>
            fireTimeout i (clearAllDice s) =
              (clearAllDice s)\<lparr>timeouts := splice1 i (timeouts s)\<rparr>) \<and>
         wf (fireTimeout i s)"
proof -
  have dt: "distinct (map snd (timeouts s))"
    and old: "\<forall>d \<in> set (diceObjects s). (born d + 90000, body d) \<in> set (timeouts s)"
    using assms(1) by (auto simp: wf_def list_all_iff)
  have mem: "(due, b) \<in> set (timeouts s)"
    using assms(2,3) by (metis nth_mem)
  have bt: "b \<in> snd ` set (timeouts s)"
    using mem by force
  have A: "diceTemplate s = Some t \<longrightarrow>
            timeouts (fst (spawnDie L p q vel rnd s)) =
              timeouts s @ [(now s + 90000, Suc (next_ref s))] \<and>
            born (last (diceObjects (fst (spawnDie L p q vel rnd s)))) = now s \<and>
            body (last (diceObjects (fst (spawnDie L p q vel rnd s)))) = Suc (next_ref s)"
    by (simp add: spawnDie_fields)
  have B: "\<forall>d \<in> set (diceObjects s).
            (born d + 90000, body d) \<in> set (timeouts s) \<and>
            (body d = b \<longrightarrow> due = born d + 90000)"
    using old same_key_same_due [OF dt mem] by auto
  have C: "now s < due \<longrightarrow> fireTimeout i s = s"
    using assms(3) by (auto intro: fireTimeout_idle)
  have D: "b \<notin> body ` set (diceObjects (fireTimeout i s)) \<and>
            b \<notin> set (world_bodies (fireTimeout i s)) \<and>
            b \<notin> snd ` set (timeouts (fireTimeout i s)) \<and>
            (\<forall>d \<in> set (diceObjects s).
               if body d = b
               then d \<notin> set (diceObjects (fireTimeout i s)) \<and>
                    mesh d \<notin> set (scene_children (fireTimeout i s))
               else d \<in> set (diceObjects (fireTimeout i s)) \<and>
                    body d \<in> set (world_bodies (fireTimeout i s)) \<and>
                    mesh d \<in> set (scene_children (fireTimeout i s))) \<and>
            (b \<notin> body ` set (diceObjects s) \<longrightarrow>
               fireTimeout i s = s\<lparr>timeouts := splice1 i (timeouts s)\<rparr>) \<and>
            fireTimeout i (clearAllDice s) =
              (clearAllDice s)\<lparr>timeouts := splice1 i (timeouts s)\<rparr>"
    if due: "due \<le> now s"
  proof -
    have e: "fireTimeout i s = (timeoutCallback b s)\<lparr>timeouts := splice1 i (timeouts s)\<rparr>"
      using fireTimeout_due [of i s] assms(2,3) due by simp
    note p = timeoutCallback_parts [OF assms(1) bt]
    have live: "\<forall>d \<in> set (diceObjects s). body d \<in> set (world_bodies s)"
      using assms(1) by (auto simp: wf_def list_all_iff)
    have 1: "b \<notin> body ` set (diceObjects (fireTimeout i s))"
      using p by (auto simp: e)
    have 2: "b \<notin> set (world_bodies (fireTimeout i s))"
      using p by (simp add: e)
    have 3: "b \<notin> snd ` set (timeouts (fireTimeout i s))"
      using splice1_drops [OF dt assms(2)] assms(3) by (simp add: e)
    have 4: "\<forall>d \<in> set (diceObjects s).
               if body d = b
               then d \<notin> set (diceObjects (fireTimeout i s)) \<and>
                    mesh d \<notin> set (scene_children (fireTimeout i s))
               else d \<in> set (diceObjects (fireTimeout i s)) \<and>
                    body d \<in> set (world_bodies (fireTimeout i s)) \<and>
                    mesh d \<in> set (scene_children (fireTimeout i s))"
      using p live by (auto simp: e)
    have 5: "b \<notin> body ` set (diceObjects s) \<longrightarrow>
               fireTimeout i s = s\<lparr>timeouts := splice1 i (timeouts s)\<rparr>"
      by (simp add: e timeoutCallback_dead)
    have 6: "fireTimeout i (clearAllDice s) =
              (clearAllDice s)\<lparr>timeouts := splice1 i (timeouts s)\<rparr>"
      using assms(2,3) due by (simp add: fireTimeout_after_clear)
    show ?thesis using 1 2 3 4 5 6 by blast
  qed
  show ?thesis
    using A B C D wf_fireTimeout [OF assms(1), of i] by blast
qed

lemma wf_oneDie: "wf oneDie"
  by (simp add: wf_def)

theorem timed_removal_once_witness:
  "wf oneDie \<and> wf (oneDie\<lparr>now := 90000\<rparr>) \<and>
   timeouts oneDie ! 0 = (90000, 6) \<and>
   diceObjects oneDie = [\<lparr>mesh = 5, body = 6, born = 0, halfHeight = 0.3\<rparr>] \<and>
   now oneDie < 90000 \<and> fireTimeout 0 oneDie = oneDie \<and>
   6 \<notin> body ` set (diceObjects (fireTimeout 0 (oneDie\<lparr>now := 90000\<rparr>))) \<and>
   6 \<notin> set (world_bodies (fireTimeout 0 (oneDie\<lparr>now := 90000\<rparr>))) \<and>
   5 \<notin> set (scene_children (fireTimeout 0 (oneDie\<lparr>now := 90000\<rparr>))) \<and>
   fireTimeout 0 (clearAllDice (oneDie\<lparr>now := 90000\<rparr>)) =
     (clearAllDice (oneDie\<lparr>now := 90000\<rparr>))\<lparr>timeouts := []\<rparr> \<and>
   timeouts (fst (spawnDie smallDie origin identityQuat None (0.5, 0.5, 0.5) oneDie)) =
     [(90000, 6), (90000, 8)]"
proof -
  have w1: "wf oneDie" by (rule wf_oneDie)
  have w2: "wf (oneDie\<lparr>now := 90000\<rparr>)" using w1 by (simp add: wf_elapse)
  have l1: "0 < length (timeouts oneDie)" and t1: "timeouts oneDie ! 0 = (90000, 6)"
    by simp_all
  have l2: "0 < length (timeouts (oneDie\<lparr>now := 90000\<rparr>))"
    and t2: "timeouts (oneDie\<lparr>now := 90000\<rparr>) ! 0 = (90000, 6)"
    by simp_all
  have d: "diceObjects oneDie = [\<lparr>mesh = 5, body = 6, born = 0, halfHeight = 0.3\<rparr>]"
    by simp
  have tm: "diceTemplate oneDie = Some dieTemplate" by simp
  from timed_removal_once [OF w1 l1 t1, of dieTemplate smallDie origin identityQuat None "(0.5, 0.5, 0.5)"]
       timed_removal_once [OF w2 l2 t2, of dieTemplate smallDie origin identityQuat None "(0.5, 0.5, 0.5)"]
       w1 w2 t1 d tm
  show ?thesis
    by (simp add: splice1_def)
qed

end
